theory Spec2Isabelle
  imports Main "HOL-Library.Sublist" "HOL-Library.AList"
begin

section \<open>Strings\<close>

text \<open>
  Python strings are modelled as \<open>string\<close> (lists of 8-bit characters). \<open>str.lower()\<close> is
  modelled on the ASCII letters, which is what it does on the ASCII file names and schedule
  descriptions the program handles; the keywords and phrases searched for are ASCII.
\<close>

definition lower_char :: "char \<Rightarrow> char" where
  "lower_char c =
     (case map_of (zip ''ABCDEFGHIJKLMNOPQRSTUVWXYZ'' ''abcdefghijklmnopqrstuvwxyz'') c of
        Some l \<Rightarrow> l
      | None \<Rightarrow> c)"

definition str_lower :: "string \<Rightarrow> string" where
  "str_lower s = map lower_char s"

text \<open>\<open>k in s\<close> on strings: \<open>k\<close> occurs in \<open>s\<close> as a contiguous substring.\<close>

fun str_in :: "string \<Rightarrow> string \<Rightarrow> bool" where
  "str_in k [] = (k = [])"
| "str_in k (c # cs) = (prefix k (c # cs) \<or> str_in k cs)"

text \<open>\<open>s.endswith(suf)\<close>.\<close>

definition str_endswith :: "string \<Rightarrow> string \<Rightarrow> bool" where
  "str_endswith s suf =
     (length suf \<le> length s \<and> drop (length s - length suf) s = suf)"

text \<open>
  \<open>os.path.splitext(p)[0]\<close> (the Windows \<open>ntpath\<close> version): the extension starts at the
  last dot of the last path component, unless that component has only dots before it.
\<close>

definition splitext_root :: "string \<Rightarrow> string" where
  "splitext_root p =
     (let base_rev = takeWhile (\<lambda>c. c \<noteq> CHR 0x5C \<and> c \<noteq> CHR ''/'') (rev p);
          ext_rev = takeWhile (\<lambda>c. c \<noteq> CHR ''.'') base_rev
      in if length ext_rev < length base_rev
            \<and> list_ex (\<lambda>c. c \<noteq> CHR ''.'') (drop (Suc (length ext_rev)) base_rev)
         then take (length p - Suc (length ext_rev)) p
         else p)"

section \<open>Schedule resolver\<close>

text \<open>
  \<open>load_keyword_mappings\<close>: the dict literal, in its insertion order (the order in which
  \<open>.items()\<close> iterates).
\<close>

definition load_keyword_mappings :: "(string \<times> string) list" where
  "load_keyword_mappings =
     [(''host'', ''At Logon''),
      (''drivers'', ''Weekly (Sunday 3 AM)''),
      (''nvme'', ''Once (1 min after install)''),
      (''telemetry'', ''Daily (12:00 PM)''),
      (''power'', ''At System Startup (Boot)''),
      (''vga'', ''At Logon''),
      (''chipset'', ''Monthly (1st of Month)''),
      (''audio'', ''At Logon''),
      (''wifi'', ''Every 4 Hours''),
      (''thermal'', ''Every 1 Hour''),
      (''security'', ''Daily (4:00 AM)''),
      (''bridge'', ''At System Startup''),
      (''usb'', ''Daily (6:00 PM)''),
      (''soc'', ''Weekly (Saturday 11 PM)''),
      (''broker'', ''Weekly (Monday 8 AM)'')]"

text \<open>
  The keyword scan of \<open>main\<close> (the inner \<open>for keyword, sched in keyword_mappings.items()\<close>
  loop with its \<open>break\<close>): \<open>schedule\<close> starts as \<open>None\<close> and is set by the first keyword
  that occurs in the lower-cased file name.
\<close>

fun scan_keywords :: "(string \<times> string) list \<Rightarrow> string \<Rightarrow> string option" where
  "scan_keywords [] filename_lower = None"
| "scan_keywords ((keyword, sched) # rest) filename_lower =
     (if str_in keyword filename_lower then Some sched
      else scan_keywords rest filename_lower)"

definition find_schedule :: "string \<Rightarrow> string option" where
  "find_schedule filename = scan_keywords load_keyword_mappings (str_lower filename)"

section \<open>Data model\<close>

text \<open>
  The release metadata document, a JSON object: \<open>tag_name\<close> is read with
  \<open>.get('tag_name', 'Unknown')\<close> and \<open>assets\<close> with \<open>.get('assets', [])\<close>, so the tag may be
  missing and a missing asset array is the empty list. Each element of the array is a JSON
  object. Its keys \<open>name\<close> and \<open>browser_download_url\<close> are read by subscript
  (\<open>asset['name']\<close>, \<open>asset['browser_download_url']\<close>), which raises \<open>KeyError\<close> when the
  key is missing, so a missing key is part of the model: \<open>Nameless\<close> is an object without
  the key \<open>name\<close>, and the download URL of an object that has a name is optional. The
  values that are present have the types of the GitHub API (strings).
\<close>

record asset =
  name :: string
  browser_download_url :: "string option"

datatype asset_object = Named asset | Nameless

record release_info =
  tag_name :: "string option"
  assets :: "asset_object list"

text \<open>
  The manifest: \<open>downloaded_releases\<close> is a JSON array, \<open>files\<close> a JSON object from asset
  name to \<open>{'release': tag, 'downloaded': timestamp}\<close>. A Python dict keeps insertion order
  and an assignment to an existing key keeps the key's position, which is what
  \<^const>\<open>AList.update\<close> does on an association list.
\<close>

record entry =
  release :: string
  downloaded :: string

record manifest =
  downloaded_releases :: "string list"
  files :: "(string \<times> entry) list"

text \<open>
  What \<open>json.load\<close> returns for the manifest file: a document of the manifest's shape, or
  some other JSON value (one that is not an object with a \<open>downloaded_releases\<close> key, so
  that subscripting it with that key raises \<open>KeyError\<close> or \<open>TypeError\<close>).
\<close>

datatype json_document = Manifest manifest | Other_JSON

text \<open>
  The state of \<open>manifest.json\<close>: missing, present but failing to open or parse, or present
  and parsing to a JSON value.
\<close>

datatype manifest_file = Absent | Corrupt | Parses json_document

text \<open>
  Exceptions, by the classes the handlers tell apart: \<open>urllib.error.URLError\<close> and
  \<open>ssl.SSLError\<close> are caught by the inner handlers of the fetcher; everything else only by
  an \<open>except Exception\<close>. \<open>KeyError\<close> (a subscript of the release metadata) and \<open>OSError\<close>
  (\<open>os.makedirs\<close>) are named for the places where \<open>main\<close> can raise them.
\<close>

datatype exn = URLError | SSLError | KeyError | OSError | Other_Exception

datatype ssl_context = Verified | Unverified

text \<open>
  What one call of \<open>urlretrieve\<close> does: it returns, or it raises; when it raises after the
  destination was opened for writing, a partial file is left behind (the flag).
\<close>

datatype retrieve_outcome = Retrieved | Retrieve_Failed exn bool

text \<open>
  What one attempt to write the manifest does: the file is written; or the attempt fails
  before the file is opened (the file is untouched); or it fails after the file was opened
  for writing (the file is left truncated, which no longer parses).
\<close>

datatype write_outcome = Written | Not_Written | Truncated

text \<open>The lines of the log file that the properties below refer to.\<close>

datatype log_entry =
    Log_Skipping string
  | Log_Downloaded string
  | Log_Download_Failed string
  | Log_Retry string
  | Log_Save_Failed
  | Log_Complete nat nat nat

record counters =
  successful :: nat
  skipped :: nat
  failed :: nat

section \<open>The environment and the state of the host\<close>

text \<open>
  Everything outside the program is an oracle of the environment, asked at the current
  \<open>tick\<close> of the world (the number of interactions with the outside so far), so that the
  network, the scheduler, the clock and the disk may answer differently each time.
  \<open>path_join\<close> stands for \<open>os.path.join\<close>; \<open>APPDATA\<close> is set (\<open>setup_logging\<close>, the first
  statement of \<open>main\<close> and outside its \<open>try\<close>, has read it already). \<open>makedirs_ok\<close> tells
  whether the host lets a missing directory be created (\<open>os.makedirs\<close> raises \<open>OSError\<close>
  when it does not, for instance when a file of that name is in the way or the permission
  is missing).
\<close>

record env =
  appdata :: string
  path_join :: "string \<Rightarrow> string \<Rightarrow> string"
  frozen :: bool
  sys_executable :: string
  script_file :: string
  default_context_ok :: bool
  unverified_context_ok :: bool
  urlopen_result :: "nat \<Rightarrow> string \<Rightarrow> ssl_context option \<Rightarrow> exn + release_info"
  urlretrieve_result :: "nat \<Rightarrow> string \<Rightarrow> ssl_context option \<Rightarrow> retrieve_outcome"
  schtasks_result :: "nat \<Rightarrow> string list \<Rightarrow> exn + int"
  now_iso :: "nat \<Rightarrow> string"
  now_plus_minute :: "nat \<Rightarrow> string"
  write_result :: "nat \<Rightarrow> write_outcome"
  makedirs_ok :: "nat \<Rightarrow> string \<Rightarrow> bool"

text \<open>
  The state: the paths of the files that exist on disk, the directories that exist (of
  those \<open>os.makedirs\<close> is called for, the directory itself), the manifest file, the context
  of urllib's globally installed opener (\<open>None\<close>: no opener installed, the library's
  default, which verifies certificates), the network attempts made (URL and context
  used), the \<open>schtasks\<close> command lines run, and the log. The \<open>tick\<close> counts the requests to
  the network, to the scheduler, to the clock and to the manifest file.
\<close>

record world =
  disk :: "string set"
  dirs :: "string set"
  manifest_file :: manifest_file
  opener :: "ssl_context option"
  net_log :: "(string \<times> ssl_context option) list"
  sched_log :: "string list list"
  log :: "log_entry list"
  tick :: nat

definition logging :: "log_entry \<Rightarrow> world \<Rightarrow> world" where
  "logging x w = w\<lparr>log := log w @ [x]\<rparr>"

text \<open>
  \<open>urllib.request.urlopen(req, timeout=10, context=...)\<close> followed by reading and decoding
  the JSON body: one network attempt. Without a context the installed opener is used.
\<close>

definition urlopen ::
  "env \<Rightarrow> string \<Rightarrow> ssl_context option \<Rightarrow> world \<Rightarrow> (exn + release_info) \<times> world" where
  "urlopen e url context w =
     (let used = (case context of Some c \<Rightarrow> Some c | None \<Rightarrow> opener w)
      in (urlopen_result e (tick w) url used,
          w\<lparr>net_log := net_log w @ [(url, used)], tick := Suc (tick w)\<rparr>))"

text \<open>
  \<open>urllib.request.urlretrieve(url, destination)\<close>: one network attempt through the installed
  opener. The result is the exception raised, if any.
\<close>

definition urlretrieve :: "env \<Rightarrow> string \<Rightarrow> string \<Rightarrow> world \<Rightarrow> exn option \<times> world" where
  "urlretrieve e url destination w =
     (let w' = w\<lparr>net_log := net_log w @ [(url, opener w)], tick := Suc (tick w)\<rparr>
      in case urlretrieve_result e (tick w) url (opener w) of
           Retrieved \<Rightarrow> (None, w'\<lparr>disk := insert destination (disk w)\<rparr>)
         | Retrieve_Failed x partial \<Rightarrow>
             (Some x, if partial then w'\<lparr>disk := insert destination (disk w)\<rparr> else w'))"

text \<open>\<open>subprocess.run(cmd, ...)\<close> of a \<open>schtasks\<close> command line: raises or gives a return code.\<close>

definition run_schtasks :: "env \<Rightarrow> string list \<Rightarrow> world \<Rightarrow> (exn + int) \<times> world" where
  "run_schtasks e cmd w =
     (schtasks_result e (tick w) cmd,
      w\<lparr>sched_log := sched_log w @ [cmd], tick := Suc (tick w)\<rparr>)"

text \<open>
  \<open>os.makedirs(path, exist_ok=True)\<close>: nothing to do when the directory is there; otherwise
  the directory is created, or the call raises. The result is the exception raised, if
  any.
\<close>

definition makedirs :: "env \<Rightarrow> string \<Rightarrow> world \<Rightarrow> exn option \<times> world" where
  "makedirs e path w =
     (if path \<in> dirs w then (None, w)
      else if makedirs_ok e (tick w) path then (None, w\<lparr>dirs := insert path (dirs w)\<rparr>)
      else (Some OSError, w))"

text \<open>\<open>datetime.now().isoformat()\<close>.\<close>

definition now_isoformat :: "env \<Rightarrow> world \<Rightarrow> string \<times> world" where
  "now_isoformat e w = (now_iso e (tick w), w\<lparr>tick := Suc (tick w)\<rparr>)"

section \<open>Secure fetcher\<close>

text \<open>
  \<open>create_ssl_context\<close>: the default (verifying) context; if creating it raises, an
  unverified context; if that raises too, \<open>None\<close>.
\<close>

definition create_ssl_context :: "env \<Rightarrow> ssl_context option" where
  "create_ssl_context e =
     (if default_context_ok e then Some Verified
      else if unverified_context_ok e then Some Unverified
      else None)"

text \<open>The URL \<open>f"https://api.github.com/repos/{owner}/{repo}/releases/latest"\<close>.\<close>

definition release_url :: "string \<Rightarrow> string \<Rightarrow> string" where
  "release_url owner repo =
     ''https://api.github.com/repos/'' @ owner @ ''/'' @ repo @ ''/releases/latest''"

text \<open>
  \<open>fetch_latest_release\<close>. The inner handler catches \<open>URLError\<close> and \<open>SSLError\<close> of the first
  attempt and retries with \<open>ssl._create_unverified_context()\<close>; an exception of the retry,
  of creating that context, or any other exception of the first attempt reaches the outer
  handlers, which return \<open>None\<close>.
\<close>

definition fetch_latest_release ::
  "env \<Rightarrow> string \<Rightarrow> string \<Rightarrow> world \<Rightarrow> release_info option \<times> world" where
  "fetch_latest_release e owner repo w =
     (let url = release_url owner repo;
          ssl_context = create_ssl_context e;
          (r1, w1) = urlopen e url ssl_context w
      in case r1 of
           Inr data \<Rightarrow> (Some data, w1)
         | Inl x \<Rightarrow>
             if x = URLError \<or> x = SSLError then
               (let w2 = logging (Log_Retry url) w1
                in if unverified_context_ok e then
                     (let (r2, w3) = urlopen e url (Some Unverified) w2
                      in case r2 of
                           Inr data \<Rightarrow> (Some data, w3)
                         | Inl y \<Rightarrow> (None, w3))
                   else (None, w2))
             else (None, w1))"

text \<open>
  \<open>download_file\<close>. The context is installed as the global opener (when there is one)
  before \<open>urlretrieve\<close>; the retry installs an unverified opener.
\<close>

definition download_file :: "env \<Rightarrow> string \<Rightarrow> string \<Rightarrow> world \<Rightarrow> bool \<times> world" where
  "download_file e url destination w =
     (let ssl_context = create_ssl_context e;
          w0 = (case ssl_context of Some c \<Rightarrow> w\<lparr>opener := Some c\<rparr> | None \<Rightarrow> w);
          (r1, w1) = urlretrieve e url destination w0
      in case r1 of
           None \<Rightarrow> (True, logging (Log_Downloaded destination) w1)
         | Some x \<Rightarrow>
             if x = URLError \<or> x = SSLError then
               (let w2 = logging (Log_Retry url) w1
                in if unverified_context_ok e then
                     (let (r2, w3) = urlretrieve e url destination (w2\<lparr>opener := Some Unverified\<rparr>)
                      in case r2 of
                           None \<Rightarrow> (True, logging (Log_Downloaded destination) w3)
                         | Some y \<Rightarrow> (False, logging (Log_Download_Failed url) w3))
                   else (False, logging (Log_Download_Failed url) w2))
             else (False, logging (Log_Download_Failed url) w1))"

section \<open>Schedule translation and task installer\<close>

text \<open>
  \<open>parse_schedule_to_cmd\<close>: the \<open>if\<close>/\<open>elif\<close> chain, in its order. Only the \<open>once\<close> branch
  reads the clock.
\<close>

definition parse_schedule_to_cmd :: "env \<Rightarrow> string \<Rightarrow> world \<Rightarrow> string list \<times> world" where
  "parse_schedule_to_cmd e schedule w =
     (let schedule_lower = str_lower schedule
      in if str_in ''at logon'' schedule_lower then
           ([''/SC'', ''ONLOGON''], w)
         else if str_in ''at system startup'' schedule_lower \<or> str_in ''boot'' schedule_lower then
           ([''/SC'', ''ONSYSTEMSTART''], w)
         else if str_in ''weekly'' schedule_lower then
           (if str_in ''sunday'' schedule_lower then
              ([''/SC'', ''WEEKLY'', ''/D'', ''SUN'', ''/ST'', ''03:00''], w)
            else if str_in ''saturday'' schedule_lower then
              ([''/SC'', ''WEEKLY'', ''/D'', ''SAT'', ''/ST'', ''23:00''], w)
            else if str_in ''monday'' schedule_lower then
              ([''/SC'', ''WEEKLY'', ''/D'', ''MON'', ''/ST'', ''08:00''], w)
            else
              ([''/SC'', ''WEEKLY'', ''/ST'', ''08:00''], w))
         else if str_in ''monthly'' schedule_lower then
           ([''/SC'', ''MONTHLY'', ''/D'', ''1'', ''/ST'', ''08:00''], w)
         else if str_in ''every 4 hours'' schedule_lower then
           ([''/SC'', ''HOURLY'', ''/MO'', ''4''], w)
         else if str_in ''every 1 hour'' schedule_lower \<or> str_in ''every hour'' schedule_lower then
           ([''/SC'', ''HOURLY''], w)
         else if str_in ''once'' schedule_lower then
           ([''/SC'', ''ONCE'', ''/ST'', now_plus_minute e (tick w)], w\<lparr>tick := Suc (tick w)\<rparr>)
         else if str_in ''12:00 pm'' schedule_lower \<or> str_in ''12:00pm'' schedule_lower then
           ([''/SC'', ''DAILY'', ''/ST'', ''12:00''], w)
         else if str_in ''4:00 am'' schedule_lower \<or> str_in ''4:00am'' schedule_lower then
           ([''/SC'', ''DAILY'', ''/ST'', ''04:00''], w)
         else if str_in ''6:00 pm'' schedule_lower \<or> str_in ''6:00pm'' schedule_lower then
           ([''/SC'', ''DAILY'', ''/ST'', ''18:00''], w)
         else
           ([''/SC'', ''DAILY'', ''/ST'', ''08:00''], w))"

text \<open>
  The \<open>schtasks\<close> command lines the installer builds: the delete command, the create
  command \<open>['schtasks', '/Create', '/TN', task_name, '/TR', target] + schedule_args + ['/F']\<close>
  where the target is the quoted path \<open>f'"{executable_path}"'\<close> (for a Python script,
  \<open>f'pythonw "{executable_path}"'\<close>), and the default daily 08:00 arguments.
\<close>

definition delete_command :: "string \<Rightarrow> string list" where
  "delete_command task_name = [''schtasks'', ''/Delete'', ''/TN'', task_name, ''/F'']"

definition create_command :: "string \<Rightarrow> string \<Rightarrow> string list \<Rightarrow> string list" where
  "create_command task_name target schedule_args =
     [''schtasks'', ''/Create'', ''/TN'', task_name, ''/TR'', target] @ schedule_args @ [''/F'']"

definition quoted :: "string \<Rightarrow> string" where
  "quoted path = [CHR 0x22] @ path @ [CHR 0x22]"

definition default_schedule_args :: "string list" where
  "default_schedule_args = [''/SC'', ''DAILY'', ''/ST'', ''08:00'']"

text \<open>
  \<open>create_scheduled_task\<close>: delete the task (result ignored), translate the schedule
  (\<open>if schedule\<close>: neither \<open>None\<close> nor empty), create the task. An exception of either
  \<open>subprocess.run\<close> is caught and gives \<open>False\<close>.
\<close>

definition create_scheduled_task ::
  "env \<Rightarrow> string \<Rightarrow> string \<Rightarrow> string option \<Rightarrow> world \<Rightarrow> bool \<times> world" where
  "create_scheduled_task e executable_path task_name schedule w =
     (let (r1, w1) = run_schtasks e (delete_command task_name) w
      in case r1 of
           Inl x \<Rightarrow> (False, w1)
         | Inr rc1 \<Rightarrow>
             (let (schedule_args, w2) =
                    (case schedule of
                       None \<Rightarrow> (default_schedule_args, w1)
                     | Some s \<Rightarrow>
                         if s = [] then (default_schedule_args, w1)
                         else parse_schedule_to_cmd e s w1);
                  cmd = create_command task_name (quoted executable_path) schedule_args;
                  (r2, w3) = run_schtasks e cmd w2
              in case r2 of
                   Inl x \<Rightarrow> (False, w3)
                 | Inr returncode \<Rightarrow> (returncode = 0, w3)))"

text \<open>\<open>schedule_self\<close>: the downloader's own daily task.\<close>

definition schedule_self :: "env \<Rightarrow> world \<Rightarrow> bool \<times> world" where
  "schedule_self e w =
     (let executable_path = (if frozen e then sys_executable e else script_file e);
          task_name = ''GitHubReleaseDownloader'';
          (r1, w1) = run_schtasks e (delete_command task_name) w
      in case r1 of
           Inl x \<Rightarrow> (False, w1)
         | Inr rc1 \<Rightarrow>
             (let cmd =
                    (if str_endswith executable_path ''.py'' then
                       create_command task_name (''pythonw '' @ quoted executable_path)
                         [''/SC'', ''DAILY'', ''/ST'', ''08:00'']
                     else
                       create_command task_name (quoted executable_path)
                         [''/SC'', ''DAILY'', ''/ST'', ''08:00'']);
                  (r2, w2) = run_schtasks e cmd w1
              in case r2 of
                   Inl x \<Rightarrow> (False, w2)
                 | Inr returncode \<Rightarrow> (returncode = 0, w2)))"

section \<open>Manifest store\<close>

text \<open>
  \<open>get_storage_folder\<close>: the path is built, the directory is created if it is missing, and
  the path is returned; when \<open>os.makedirs\<close> raises, the exception leaves the function
  (\<open>Inl\<close>).
\<close>

definition storage_path :: "env \<Rightarrow> string" where
  "storage_path e =
     path_join e (path_join e (appdata e) ''GitHubReleaseDownloader'') ''downloads''"

definition get_storage_folder :: "env \<Rightarrow> world \<Rightarrow> (exn + string) \<times> world" where
  "get_storage_folder e w =
     (let (r, w1) = makedirs e (storage_path e) w
      in case r of
           Some x \<Rightarrow> (Inl x, w1)
         | None \<Rightarrow> (Inr (storage_path e), w1))"

definition empty_manifest :: manifest where
  "empty_manifest = \<lparr>downloaded_releases = [], files = []\<rparr>"

text \<open>
  \<open>load_manifest\<close>: the parsed document when the file exists and loads; the empty manifest
  when the file is missing, and also (the \<open>except\<close> branch) when opening or parsing raises.
\<close>

definition load_manifest :: "world \<Rightarrow> json_document" where
  "load_manifest w =
     (case manifest_file w of
        Absent \<Rightarrow> Manifest empty_manifest
      | Corrupt \<Rightarrow> Manifest empty_manifest
      | Parses d \<Rightarrow> d)"

text \<open>\<open>save_manifest\<close>: best effort; an exception while writing is logged and swallowed.\<close>

definition save_manifest :: "env \<Rightarrow> manifest \<Rightarrow> world \<Rightarrow> world" where
  "save_manifest e m w =
     (let w' = w\<lparr>tick := Suc (tick w)\<rparr>
      in case write_result e (tick w) of
           Written \<Rightarrow> w'\<lparr>manifest_file := Parses (Manifest m)\<rparr>
         | Not_Written \<Rightarrow> logging Log_Save_Failed w'
         | Truncated \<Rightarrow> logging Log_Save_Failed (w'\<lparr>manifest_file := Corrupt\<rparr>))"

section \<open>Release pipeline\<close>

text \<open>
  The body of the download loop of \<open>main\<close> for one asset. Its first statement reads
  \<open>asset['browser_download_url']\<close>, which raises \<open>KeyError\<close> when the key is missing; nothing
  in the loop catches it, so the exception leaves the loop (\<open>Inl\<close>). Otherwise: resolve
  the destination and the schedule; skip an existing file (but still install its task);
  otherwise download, and install the task only after a successful download. A download
  that fails raises nothing here: \<open>download_file\<close> returns \<open>False\<close>.
\<close>

definition process_asset ::
  "env \<Rightarrow> string \<Rightarrow> asset \<Rightarrow> counters \<Rightarrow> world \<Rightarrow> (exn + counters) \<times> world" where
  "process_asset e storage_folder a c w =
     (case browser_download_url a of
        None \<Rightarrow> (Inl KeyError, w)
      | Some download_url \<Rightarrow>
          (let filename = name a;
               destination = path_join e storage_folder filename;
               schedule = find_schedule filename
           in if destination \<in> disk w then
                (let w1 = logging (Log_Skipping destination) w;
                     task_name = ''SystemUpdate_'' @ splitext_root filename;
                     (r, w2) = create_scheduled_task e destination task_name schedule w1
                 in (Inr (c\<lparr>skipped := skipped c + 1\<rparr>), w2))
              else
                (let (ok, w1) = download_file e download_url destination w
                 in if ok then
                      (let task_name = ''SystemUpdate_'' @ splitext_root filename;
                           (r, w2) = create_scheduled_task e destination task_name schedule w1
                       in (Inr (c\<lparr>successful := successful c + 1\<rparr>), w2))
                    else (Inr (c\<lparr>failed := failed c + 1\<rparr>), w1))))"

text \<open>
  The loop \<open>for asset in exe_assets\<close>: an exception of the body ends the loop, with the
  effects of the assets before it done.
\<close>

fun process_assets ::
  "env \<Rightarrow> string \<Rightarrow> asset list \<Rightarrow> counters \<Rightarrow> world \<Rightarrow> (exn + counters) \<times> world" where
  "process_assets e storage_folder [] c w = (Inr c, w)"
| "process_assets e storage_folder (a # rest) c w =
     (let (r, w1) = process_asset e storage_folder a c w
      in case r of
           Inl x \<Rightarrow> (Inl x, w1)
         | Inr c1 \<Rightarrow> process_assets e storage_folder rest c1 w1)"

text \<open>
  The loop that records one manifest entry per executable asset, each with its own clock
  reading: \<open>manifest['files'][asset['name']] = {'release': ..., 'downloaded': ...}\<close>.
\<close>

fun record_files ::
  "env \<Rightarrow> string \<Rightarrow> asset list \<Rightarrow> (string \<times> entry) list \<Rightarrow> world
     \<Rightarrow> (string \<times> entry) list \<times> world" where
  "record_files e release_tag [] fs w = (fs, w)"
| "record_files e release_tag (a # rest) fs w =
     (let (ts, w1) = now_isoformat e w
      in record_files e release_tag rest
           (AList.update (name a) \<lparr>release = release_tag, downloaded = ts\<rparr> fs) w1)"

text \<open>
  The manifest update at the end of \<open>main\<close>. Subscripting a loaded document that is not of
  the manifest's shape raises; the exception leaves the function (\<open>Inl\<close>).
\<close>

definition update_manifest ::
  "env \<Rightarrow> string \<Rightarrow> asset list \<Rightarrow> counters \<Rightarrow> world \<Rightarrow> (exn + unit) \<times> world" where
  "update_manifest e release_tag exe_assets c w =
     (let loaded = load_manifest w
      in if 0 < successful c \<or> 0 < skipped c then
           (case loaded of
              Other_JSON \<Rightarrow> (Inl Other_Exception, w)
            | Manifest m \<Rightarrow>
                (let rels = (if release_tag \<in> set (downloaded_releases m)
                             then downloaded_releases m
                             else downloaded_releases m @ [release_tag]);
                     (fs, w1) = record_files e release_tag exe_assets (files m) w
                 in (Inr (), save_manifest e \<lparr>downloaded_releases = rels, files = fs\<rparr> w1)))
         else (Inr (), w))"

definition is_exe :: "asset \<Rightarrow> bool" where
  "is_exe a = str_endswith (str_lower (name a)) ''.exe''"

text \<open>
  The comprehension \<open>[asset for asset in assets if asset['name'].lower().endswith('.exe')]\<close>:
  it reads the name of every object of the array, so it raises \<open>KeyError\<close> when one of them
  has no name, and otherwise keeps the objects whose name ends in \<open>.exe\<close>, in order
  (\<open>named_exe\<close>: the objects that have a name, and one that ends in \<open>.exe\<close>).
\<close>

fun named_exe :: "asset_object list \<Rightarrow> asset list" where
  "named_exe [] = []"
| "named_exe (Nameless # rest) = named_exe rest"
| "named_exe (Named a # rest) = (if is_exe a then a # named_exe rest else named_exe rest)"

definition select_exe :: "asset_object list \<Rightarrow> exn + asset list" where
  "select_exe objects =
     (if Nameless \<in> set objects then Inl KeyError else Inr (named_exe objects))"

text \<open>
  \<open>main\<close>, from the \<open>try\<close> on (\<open>setup_logging\<close>, before it, has returned). A failed fetch
  and an empty list of executable assets return \<open>False\<close> early; an exception inside the
  body is caught by the outer handler, which returns \<open>False\<close>. The body raises in four
  places: \<open>get_storage_folder\<close>, the comprehension that selects the executable assets, the
  download loop, and the manifest update. (An empty metadata object is falsy and returns
  \<open>False\<close> at the first test; the model does not tell it from an object that has other
  keys but neither \<open>tag_name\<close> nor \<open>assets\<close>, for which \<open>main\<close> returns \<open>False\<close> at the test for
  executable assets.)
\<close>

definition main :: "env \<Rightarrow> world \<Rightarrow> bool \<times> world" where
  "main e w =
     (let (r0, w1) = schedule_self e w;
          owner = ''YashasSingh'';
          repo = ''cybersecurity'';
          (fetched, w2) = fetch_latest_release e owner repo w1
      in case fetched of
           None \<Rightarrow> (False, w2)
         | Some info \<Rightarrow>
             (let release_tag = (case tag_name info of Some t \<Rightarrow> t | None \<Rightarrow> ''Unknown'');
                  (stored, w2') = get_storage_folder e w2
              in case stored of
                   Inl x \<Rightarrow> (False, w2')
                 | Inr storage_folder \<Rightarrow>
                     (case select_exe (assets info) of
                        Inl x \<Rightarrow> (False, w2')
                      | Inr exe_assets \<Rightarrow>
                          if exe_assets = [] then (False, w2')
                          else
                            (let (looped, w3) =
                                   process_assets e storage_folder exe_assets
                                     \<lparr>successful = 0, skipped = 0, failed = 0\<rparr> w2'
                             in case looped of
                                  Inl x \<Rightarrow> (False, w3)
                                | Inr c \<Rightarrow>
                                    (let (r, w4) = update_manifest e release_tag exe_assets c w3
                                     in case r of
                                          Inl x \<Rightarrow> (False, w4)
                                        | Inr u \<Rightarrow>
                                            (failed c = 0,
                                             logging (Log_Complete (successful c) (skipped c)
                                                        (failed c)) w4))))))"

text \<open>
  The script's entry point, \<open>if __name__ == "__main__": main()\<close>: the value of \<open>main()\<close> is
  dropped and the interpreter exits with status 0.
\<close>

definition script :: "env \<Rightarrow> world \<Rightarrow> nat \<times> world" where
  "script e w = (let (r, w') = main e w in (0, w'))"

section \<open>The schedule translation as an ordered pattern table\<close>

text \<open>
  The specification's reading of the translation: an ordered table of phrase patterns,
  tried in order, the first match giving the arguments, and the daily 08:00 default when
  none matches. A pattern is a list of alternatives, each a list of phrases that must all
  occur. This definition follows the specification's words (the phrases and their order)
  and is compared with \<^const>\<open>parse_schedule_to_cmd\<close> below.
\<close>

definition phrase_match :: "string list list \<Rightarrow> string \<Rightarrow> bool" where
  "phrase_match alternatives s = list_ex (list_all (\<lambda>phrase. str_in phrase s)) alternatives"


fun first_match :: "(string list list \<times> string list) list \<Rightarrow> string \<Rightarrow> string list" where
  "first_match [] s = [''/SC'', ''DAILY'', ''/ST'', ''08:00'']"
| "first_match ((alternatives, args) # rest) s =
     (if phrase_match alternatives s then args else first_match rest s)"


section \<open>Example inputs\<close>

text \<open>
  A release with two executable assets and one other asset, on a host whose storage is
  empty and that has no manifest yet. In \<open>example_env\<close> every request is answered; in
  \<open>flaky_env\<close> the download of the second executable fails until tick 12, that is during
  the first run only.
\<close>

definition example_release :: release_info where
  "example_release =
     \<lparr>tag_name = Some ''v2.1'',
      assets = [Named \<lparr>name = ''wifi-driver.exe'', browser_download_url = Some ''url-1''\<rparr>,
                Named \<lparr>name = ''notes.pdf'', browser_download_url = Some ''url-2''\<rparr>,
                Named \<lparr>name = ''security-patch.exe'', browser_download_url = Some ''url-3''\<rparr>]\<rparr>"

definition example_env :: env where
  "example_env =
     \<lparr>appdata = ''A'',
      path_join = (\<lambda>a b. a @ ''/'' @ b),
      frozen = False,
      sys_executable = ''python.exe'',
      script_file = ''downloader.py'',
      default_context_ok = True,
      unverified_context_ok = True,
      urlopen_result = (\<lambda>k url c. Inr example_release),
      urlretrieve_result = (\<lambda>k url c. Retrieved),
      schtasks_result = (\<lambda>k cmd. Inr 0),
      now_iso = (\<lambda>k. replicate k (CHR ''I'')),
      now_plus_minute = (\<lambda>k. ''00:01''),
      write_result = (\<lambda>k. Written),
      makedirs_ok = (\<lambda>k p. True)\<rparr>"

definition flaky_env :: env where
  "flaky_env =
     example_env\<lparr>urlretrieve_result :=
       (\<lambda>k url c. if url = ''url-3'' \<and> k < 12 then Retrieve_Failed URLError False
                   else Retrieved)\<rparr>"

definition example_world :: world where
  "example_world =
     \<lparr>disk = {}, dirs = {}, manifest_file = Absent, opener = None, net_log = [],
      sched_log = [], log = [], tick = 0\<rparr>"

text \<open>
  Variations: a host whose manifest cannot be written; a host without network; a host
  whose manifest file holds some other JSON value; a network on which only unverified
  requests succeed; a host on which the default SSL context cannot be created; a release
  without executable assets; a host on which the storage folder cannot be created; a
  release one of whose assets has no name; and a release whose listing is a setup program
  whose download fails, then a patch without a download URL, then a driver.
\<close>

definition read_only_env :: env where
  "read_only_env = example_env\<lparr>write_result := (\<lambda>k. Not_Written)\<rparr>"

definition offline_env :: env where
  "offline_env = example_env\<lparr>urlopen_result := (\<lambda>k url c. Inl URLError)\<rparr>"

definition odd_manifest_world :: world where
  "odd_manifest_world = example_world\<lparr>manifest_file := Parses Other_JSON\<rparr>"

definition strict_tls_env :: env where
  "strict_tls_env =
     example_env\<lparr>urlopen_result :=
                   (\<lambda>k url c. if c = Some Unverified then Inr example_release else Inl SSLError),
                 urlretrieve_result :=
                   (\<lambda>k url c. if c = Some Unverified then Retrieved
                               else Retrieve_Failed URLError False)\<rparr>"

definition no_default_context_env :: env where
  "no_default_context_env = example_env\<lparr>default_context_ok := False\<rparr>"

definition no_exe_env :: env where
  "no_exe_env =
     example_env\<lparr>urlopen_result :=
       (\<lambda>k url c. Inr \<lparr>tag_name = Some ''v2.2'',
                         assets = [Named \<lparr>name = ''notes.pdf'',
                                          browser_download_url = Some ''url-2''\<rparr>]\<rparr>)\<rparr>"

definition no_storage_env :: env where
  "no_storage_env = example_env\<lparr>makedirs_ok := (\<lambda>k path. False)\<rparr>"

definition nameless_release :: release_info where
  "nameless_release =
     \<lparr>tag_name = Some ''v2.3'',
      assets = [Named \<lparr>name = ''wifi-driver.exe'', browser_download_url = Some ''url-1''\<rparr>,
                Nameless]\<rparr>"

definition nameless_env :: env where
  "nameless_env = example_env\<lparr>urlopen_result := (\<lambda>k url c. Inr nameless_release)\<rparr>"

definition broken_listing :: "asset list" where
  "broken_listing =
     [\<lparr>name = ''setup.exe'', browser_download_url = Some ''url-3''\<rparr>,
      \<lparr>name = ''security-patch.exe'', browser_download_url = None\<rparr>,
      \<lparr>name = ''wifi-driver.exe'', browser_download_url = Some ''url-1''\<rparr>]"

definition broken_release :: release_info where
  "broken_release = \<lparr>tag_name = Some ''v2.4'', assets = map Named broken_listing\<rparr>"

definition broken_env :: env where
  "broken_env = flaky_env\<lparr>urlopen_result := (\<lambda>k url c. Inr broken_release)\<rparr>"








section \<open>Names for the stages of a run\<close>

text \<open>
  The intermediate values of \<open>main\<close>, named so that the properties below can refer to
  them: the fetched metadata (\<open>release_info\<close>), the state after the fetch, the release tag,
  the result of \<open>get_storage_folder\<close> and the state it leaves, the executable assets
  (\<open>exe_assets\<close>, when every object of the array has a name), and the result and state of
  the download loop.
\<close>

definition fetched_release :: "env \<Rightarrow> world \<Rightarrow> release_info option" where
  "fetched_release e w =
     fst (fetch_latest_release e ''YashasSingh'' ''cybersecurity'' (snd (schedule_self e w)))"

definition world_after_fetch :: "env \<Rightarrow> world \<Rightarrow> world" where
  "world_after_fetch e w =
     snd (fetch_latest_release e ''YashasSingh'' ''cybersecurity'' (snd (schedule_self e w)))"

definition tag_of :: "release_info \<Rightarrow> string" where
  "tag_of info = (case tag_name info of Some t \<Rightarrow> t | None \<Rightarrow> ''Unknown'')"

definition storage_folder_of :: "env \<Rightarrow> world \<Rightarrow> exn + string" where
  "storage_folder_of e w = fst (get_storage_folder e (world_after_fetch e w))"

definition world_before_loop :: "env \<Rightarrow> world \<Rightarrow> world" where
  "world_before_loop e w = snd (get_storage_folder e (world_after_fetch e w))"

definition exe_assets :: "release_info \<Rightarrow> asset list" where
  "exe_assets info = named_exe (assets info)"

definition download_loop :: "env \<Rightarrow> world \<Rightarrow> release_info \<Rightarrow> (exn + counters) \<times> world" where
  "download_loop e w info =
     process_assets e (storage_path e) (exe_assets info)
       \<lparr>successful = 0, skipped = 0, failed = 0\<rparr> (world_before_loop e w)"

text \<open>
  The entry of the persisted manifest for an asset name, and the manifest's \<open>files\<close>
  mapping without its timestamps (the asset names, in order, each with its release tag).
\<close>

definition manifest_entry :: "world \<Rightarrow> string \<Rightarrow> entry option" where
  "manifest_entry w n =
     (case manifest_file w of
        Parses (Manifest m) \<Rightarrow> map_of (files m) n
      | _ \<Rightarrow> None)"

definition tags_of :: "(string \<times> entry) list \<Rightarrow> (string \<times> string) list" where
  "tags_of fs = map (\<lambda>p. (fst p, release (snd p))) fs"

section \<open>The trace of the download loop\<close>

text \<open>
  What a stretch of a run, from a state \<open>w\<close> to a later state \<open>w'\<close>, leaves behind for each
  asset it handles. The loop body logs exactly one of three lines for an asset: that its
  file is skipped, that it was downloaded, or that its download failed (the first two
  name the destination, the third the URL). \<open>create_scheduled_task\<close> starts with the
  \<open>schtasks /Delete\<close> command of the task, so the delete commands of the stretch tell for
  which tasks the installer was called.
\<close>

definition has_url :: "asset \<Rightarrow> bool" where
  "has_url a = (browser_download_url a \<noteq> None)"

definition is_outcome :: "log_entry \<Rightarrow> bool" where
  "is_outcome x =
     (case x of
        Log_Skipping d \<Rightarrow> True
      | Log_Downloaded d \<Rightarrow> True
      | Log_Download_Failed u \<Rightarrow> True
      | _ \<Rightarrow> False)"

definition is_skipped :: "log_entry \<Rightarrow> bool" where
  "is_skipped x = (case x of Log_Skipping d \<Rightarrow> True | _ \<Rightarrow> False)"

definition is_downloaded :: "log_entry \<Rightarrow> bool" where
  "is_downloaded x = (case x of Log_Downloaded d \<Rightarrow> True | _ \<Rightarrow> False)"

definition is_failure :: "log_entry \<Rightarrow> bool" where
  "is_failure x = (case x of Log_Download_Failed u \<Rightarrow> True | _ \<Rightarrow> False)"

definition outcome_of :: "env \<Rightarrow> string \<Rightarrow> asset \<Rightarrow> log_entry \<Rightarrow> bool" where
  "outcome_of e storage_folder a x =
     (x = Log_Skipping (path_join e storage_folder (name a))
      \<or> x = Log_Downloaded (path_join e storage_folder (name a))
      \<or> map_option Log_Download_Failed (browser_download_url a) = Some x)"

definition outcome_lines :: "world \<Rightarrow> world \<Rightarrow> log_entry list" where
  "outcome_lines w w' = filter is_outcome (drop (length (log w)) (log w'))"

definition is_delete :: "string list \<Rightarrow> bool" where
  "is_delete cmd = (take 2 cmd = [''schtasks'', ''/Delete''])"

definition installer_calls :: "world \<Rightarrow> world \<Rightarrow> string list list" where
  "installer_calls w w' = filter is_delete (drop (length (sched_log w)) (sched_log w'))"

definition task_name_of :: "asset \<Rightarrow> string" where
  "task_name_of a = ''SystemUpdate_'' @ splitext_root (name a)"

text \<open>The assets of a listing whose outcome line, at the same position, is not a failure.\<close>

definition not_failed :: "asset list \<Rightarrow> log_entry list \<Rightarrow> asset list" where
  "not_failed xs ls = map fst (filter (\<lambda>p. \<not> is_failure (snd p)) (zip xs ls))"

section \<open>Properties of the schedule resolver\<close>

lemma str_in_sublist: "str_in k s \<longleftrightarrow> sublist k s"
  by (induction s) (auto simp: sublist_Cons_right)

lemma scan_keywords_find:
  "scan_keywords t s = map_option snd (List.find (\<lambda>p. str_in (fst p) s) t)"
  by (induction t) auto

lemma scan_keywords_none:
  "list_all (\<lambda>p. \<not> str_in (fst p) s) t \<Longrightarrow> scan_keywords t s = None"
  by (induction t) auto

lemma scan_keywords_index:
  assumes "i < length t" and "str_in (fst (t ! i)) s"
    and "\<forall>j<i. \<not> str_in (fst (t ! j)) s"
  shows "scan_keywords t s = Some (snd (t ! i))"
proof -
  have "List.find (\<lambda>p. str_in (fst p) s) t = Some (t ! i)"
    unfolding find_Some_iff using assms by blast
  then show ?thesis by (simp add: scan_keywords_find)
qed

text \<open>
  C3. Keyword precedence. The table lists the fifteen keywords in the order host, drivers,
  nvme, telemetry, power, vga, chipset, audio, wifi, thermal, security, bridge, usb, soc,
  broker. For every file name, the schedule found is the description of the first table
  entry, in table order, whose keyword occurs in the lower-cased file name, wherever the
  keywords stand in the name: the entry at index \<open>i\<close> wins whenever its keyword occurs and
  no keyword at a smaller index does. So a name with both \<open>usb\<close> and \<open>wifi\<close> (and none of
  the eight keywords listed before \<open>wifi\<close>) resolves to the wifi entry, "Every 4 Hours",
  in either order of the two words. A name in which no keyword occurs resolves to nothing.
\<close>

theorem keyword_precedence:
  "map fst load_keyword_mappings =
     [''host'', ''drivers'', ''nvme'', ''telemetry'', ''power'', ''vga'', ''chipset'',
      ''audio'', ''wifi'', ''thermal'', ''security'', ''bridge'', ''usb'', ''soc'', ''broker'']
   \<and> find_schedule filename =
       map_option snd
         (List.find (\<lambda>p. str_in (fst p) (str_lower filename)) load_keyword_mappings)
   \<and> (\<forall>i < length load_keyword_mappings.
         str_in (fst (load_keyword_mappings ! i)) (str_lower filename)
         \<and> (\<forall>j<i. \<not> str_in (fst (load_keyword_mappings ! j)) (str_lower filename))
         \<longrightarrow> find_schedule filename = Some (snd (load_keyword_mappings ! i)))
   \<and> (str_in ''usb'' (str_lower filename) \<and> str_in ''wifi'' (str_lower filename)
        \<and> list_all (\<lambda>k. \<not> str_in k (str_lower filename))
             [''host'', ''drivers'', ''nvme'', ''telemetry'', ''power'', ''vga'', ''chipset'',
              ''audio'']
        \<longrightarrow> find_schedule filename = Some ''Every 4 Hours'')
   \<and> find_schedule ''usb-wifi.exe'' = Some ''Every 4 Hours''
   \<and> find_schedule ''WiFi_USB.exe'' = Some ''Every 4 Hours''
   \<and> (list_all (\<lambda>p. \<not> str_in (fst p) (str_lower filename)) load_keyword_mappings
        \<longrightarrow> find_schedule filename = None)"
proof -
  have order: "map fst load_keyword_mappings =
     [''host'', ''drivers'', ''nvme'', ''telemetry'', ''power'', ''vga'', ''chipset'',
      ''audio'', ''wifi'', ''thermal'', ''security'', ''bridge'', ''usb'', ''soc'', ''broker'']"
    by (simp add: load_keyword_mappings_def)
  have found: "find_schedule filename =
       map_option snd
         (List.find (\<lambda>p. str_in (fst p) (str_lower filename)) load_keyword_mappings)"
    by (simp add: find_schedule_def scan_keywords_find)
  have index: "\<forall>i < length load_keyword_mappings.
         str_in (fst (load_keyword_mappings ! i)) (str_lower filename)
         \<and> (\<forall>j<i. \<not> str_in (fst (load_keyword_mappings ! j)) (str_lower filename))
         \<longrightarrow> find_schedule filename = Some (snd (load_keyword_mappings ! i))"
    unfolding find_schedule_def using scan_keywords_index by blast
  have both: "str_in ''usb'' (str_lower filename) \<and> str_in ''wifi'' (str_lower filename)
        \<and> list_all (\<lambda>k. \<not> str_in k (str_lower filename))
             [''host'', ''drivers'', ''nvme'', ''telemetry'', ''power'', ''vga'', ''chipset'',
              ''audio'']
        \<longrightarrow> find_schedule filename = Some ''Every 4 Hours''"
    by (simp add: find_schedule_def load_keyword_mappings_def)
  have ex1: "find_schedule ''usb-wifi.exe'' = Some ''Every 4 Hours''"
    by code_simp
  have ex2: "find_schedule ''WiFi_USB.exe'' = Some ''Every 4 Hours''"
    by code_simp
  have none: "list_all (\<lambda>p. \<not> str_in (fst p) (str_lower filename)) load_keyword_mappings
        \<longrightarrow> find_schedule filename = None"
    unfolding find_schedule_def using scan_keywords_none by blast
  from order found index both ex1 ex2 none show ?thesis by blast
qed

theorem keyword_precedence_witness:
  "str_in ''usb'' (str_lower ''backup-usb-wifi-tool.exe'')
   \<and> str_in ''wifi'' (str_lower ''backup-usb-wifi-tool.exe'')
   \<and> find_schedule ''backup-usb-wifi-tool.exe'' = Some ''Every 4 Hours''
   \<and> find_schedule ''readme.exe'' = None"
proof -
  have a: "str_in ''usb'' (str_lower ''backup-usb-wifi-tool.exe'')"
    by code_simp
  have b: "str_in ''wifi'' (str_lower ''backup-usb-wifi-tool.exe'')"
    by code_simp
  have c: "list_all (\<lambda>k. \<not> str_in k (str_lower ''backup-usb-wifi-tool.exe''))
             [''host'', ''drivers'', ''nvme'', ''telemetry'', ''power'', ''vga'', ''chipset'',
              ''audio'']"
    by code_simp
  have d: "list_all (\<lambda>p. \<not> str_in (fst p) (str_lower ''readme.exe'')) load_keyword_mappings"
    by code_simp
  from a b c keyword_precedence [of "''backup-usb-wifi-tool.exe''"]
  have "find_schedule ''backup-usb-wifi-tool.exe'' = Some ''Every 4 Hours''"
    by blast
  moreover from d keyword_precedence [of "''readme.exe''"]
  have "find_schedule ''readme.exe'' = None"
    by blast
  ultimately show ?thesis using a b by blast
qed

section \<open>Properties of the schedule translation\<close>

lemma first_match_default:
  "list_all (\<lambda>p. \<not> phrase_match (fst p) s) t \<Longrightarrow>
     first_match t s = [''/SC'', ''DAILY'', ''/ST'', ''08:00'']"
  by (induction t) auto





section \<open>Properties of the manifest store\<close>

text \<open>
  C8. Manifest corruption resilience. When the manifest file is missing, or is present
  but cannot be opened or parsed, \<open>load_manifest\<close> returns the empty manifest
  \<open>{'downloaded_releases': [], 'files': {}}\<close>; it has no exceptional result. The manifest
  update of \<open>main\<close>, which is where the manifest is loaded, then completes without an
  exception, so such a file does not abort the run.
\<close>

theorem load_manifest_resilient:
  "(manifest_file w = Absent \<or> manifest_file w = Corrupt
      \<longrightarrow> load_manifest w = Manifest \<lparr>downloaded_releases = [], files = []\<rparr>)
   \<and> (manifest_file w = Absent \<or> manifest_file w = Corrupt
      \<longrightarrow> fst (update_manifest e tag xs c w) = Inr ())"
  by (auto simp: load_manifest_def empty_manifest_def update_manifest_def Let_def split_def)

theorem load_manifest_resilient_witness:
  "manifest_file (example_world\<lparr>manifest_file := Corrupt\<rparr>) = Corrupt
   \<and> load_manifest (example_world\<lparr>manifest_file := Corrupt\<rparr>) =
       Manifest \<lparr>downloaded_releases = [], files = []\<rparr>
   \<and> fst (update_manifest example_env ''v2.1'' (exe_assets example_release)
            \<lparr>successful = 2, skipped = 0, failed = 0\<rparr>
            (example_world\<lparr>manifest_file := Corrupt\<rparr>)) = Inr ()"
proof -
  have a: "manifest_file (example_world\<lparr>manifest_file := Corrupt\<rparr>) = Corrupt"
    by simp
  from a load_manifest_resilient
         [of "example_world\<lparr>manifest_file := Corrupt\<rparr>" example_env "''v2.1''"
             "exe_assets example_release"
             "\<lparr>successful = 2, skipped = 0, failed = 0\<rparr>"]
  show ?thesis by blast
qed

section \<open>What each operation leaves unchanged\<close>

lemma run_schtasks_keeps:
  "disk (snd (run_schtasks e cmd w)) = disk w"
  "manifest_file (snd (run_schtasks e cmd w)) = manifest_file w"
  "net_log (snd (run_schtasks e cmd w)) = net_log w"
  "log (snd (run_schtasks e cmd w)) = log w"
  "dirs (snd (run_schtasks e cmd w)) = dirs w"
  by (simp_all add: run_schtasks_def)

lemma parse_schedule_keeps:
  "disk (snd (parse_schedule_to_cmd e s w)) = disk w"
  "manifest_file (snd (parse_schedule_to_cmd e s w)) = manifest_file w"
  "net_log (snd (parse_schedule_to_cmd e s w)) = net_log w"
  "log (snd (parse_schedule_to_cmd e s w)) = log w"
  "sched_log (snd (parse_schedule_to_cmd e s w)) = sched_log w"
  "dirs (snd (parse_schedule_to_cmd e s w)) = dirs w"
  by (simp_all add: parse_schedule_to_cmd_def Let_def)

lemma create_scheduled_task_keeps:
  "disk (snd (create_scheduled_task e p n s w)) = disk w"
  "manifest_file (snd (create_scheduled_task e p n s w)) = manifest_file w"
  "net_log (snd (create_scheduled_task e p n s w)) = net_log w"
  "log (snd (create_scheduled_task e p n s w)) = log w"
  "dirs (snd (create_scheduled_task e p n s w)) = dirs w"
  by (simp_all add: create_scheduled_task_def Let_def split_def run_schtasks_keeps
        parse_schedule_keeps split: sum.split option.split)

lemma schedule_self_keeps:
  "disk (snd (schedule_self e w)) = disk w"
  "manifest_file (snd (schedule_self e w)) = manifest_file w"
  "net_log (snd (schedule_self e w)) = net_log w"
  "log (snd (schedule_self e w)) = log w"
  "dirs (snd (schedule_self e w)) = dirs w"
  by (simp_all add: schedule_self_def Let_def split_def run_schtasks_keeps split: sum.split)

lemma urlopen_keeps:
  "disk (snd (urlopen e url c w)) = disk w"
  "manifest_file (snd (urlopen e url c w)) = manifest_file w"
  "sched_log (snd (urlopen e url c w)) = sched_log w"
  "log (snd (urlopen e url c w)) = log w"
  "dirs (snd (urlopen e url c w)) = dirs w"
  by (simp_all add: urlopen_def Let_def)

lemma logging_keeps:
  "disk (logging x w) = disk w"
  "manifest_file (logging x w) = manifest_file w"
  "sched_log (logging x w) = sched_log w"
  "net_log (logging x w) = net_log w"
  "tick (logging x w) = tick w"
  "opener (logging x w) = opener w"
  "log (logging x w) = log w @ [x]"
  "dirs (logging x w) = dirs w"
  by (simp_all add: logging_def)

lemma fetch_keeps:
  "disk (snd (fetch_latest_release e owner repo w)) = disk w"
  "manifest_file (snd (fetch_latest_release e owner repo w)) = manifest_file w"
  "sched_log (snd (fetch_latest_release e owner repo w)) = sched_log w"
  "dirs (snd (fetch_latest_release e owner repo w)) = dirs w"
  by (simp_all add: fetch_latest_release_def Let_def split_def urlopen_keeps logging_keeps
        split: sum.split)

lemma urlretrieve_keeps:
  "manifest_file (snd (urlretrieve e url d w)) = manifest_file w"
  "sched_log (snd (urlretrieve e url d w)) = sched_log w"
  "log (snd (urlretrieve e url d w)) = log w"
  "disk w \<subseteq> disk (snd (urlretrieve e url d w))"
  "fst (urlretrieve e url d w) = None \<Longrightarrow> d \<in> disk (snd (urlretrieve e url d w))"
  "dirs (snd (urlretrieve e url d w)) = dirs w"
  by (auto simp: urlretrieve_def Let_def split: retrieve_outcome.splits)

lemma download_file_keeps:
  "manifest_file (snd (download_file e url d w)) = manifest_file w"
  "sched_log (snd (download_file e url d w)) = sched_log w"
  "disk w \<subseteq> disk (snd (download_file e url d w))"
  "fst (download_file e url d w) \<Longrightarrow> d \<in> disk (snd (download_file e url d w))"
  "dirs (snd (download_file e url d w)) = dirs w"
proof -
  define w0 where "w0 = (case create_ssl_context e of Some c \<Rightarrow> w\<lparr>opener := Some c\<rparr> | None \<Rightarrow> w)"
  have w0: "manifest_file w0 = manifest_file w" "sched_log w0 = sched_log w" "disk w0 = disk w"
    "dirs w0 = dirs w"
    by (simp_all add: w0_def split: option.split)
  define r1 where "r1 = fst (urlretrieve e url d w0)"
  define w1 where "w1 = snd (urlretrieve e url d w0)"
  have w1: "manifest_file w1 = manifest_file w" "sched_log w1 = sched_log w" "disk w \<subseteq> disk w1"
    "r1 = None \<Longrightarrow> d \<in> disk w1" "dirs w1 = dirs w"
    using urlretrieve_keeps [where e = e and url = url and d = d and w = w0]
    by (simp_all add: w1_def r1_def w0)
  define w2 where "w2 = (logging (Log_Retry url) w1)\<lparr>opener := Some Unverified\<rparr>"
  have w2: "manifest_file w2 = manifest_file w" "sched_log w2 = sched_log w" "disk w \<subseteq> disk w2"
    "dirs w2 = dirs w"
    by (simp_all add: w2_def logging_def w1)
  define r3 where "r3 = fst (urlretrieve e url d w2)"
  define w3 where "w3 = snd (urlretrieve e url d w2)"
  have w3: "manifest_file w3 = manifest_file w" "sched_log w3 = sched_log w" "disk w \<subseteq> disk w3"
    "r3 = None \<Longrightarrow> d \<in> disk w3" "dirs w3 = dirs w"
    using urlretrieve_keeps [where e = e and url = url and d = d and w = w2] w2
    by (auto simp add: w3_def r3_def)
  have eq: "download_file e url d w =
     (case r1 of None \<Rightarrow> (True, logging (Log_Downloaded d) w1)
      | Some x \<Rightarrow> if x = URLError \<or> x = SSLError then
           (if unverified_context_ok e then
              (case r3 of None \<Rightarrow> (True, logging (Log_Downloaded d) w3)
               | Some y \<Rightarrow> (False, logging (Log_Download_Failed url) w3))
            else (False, logging (Log_Download_Failed url) (logging (Log_Retry url) w1)))
         else (False, logging (Log_Download_Failed url) w1))"
    unfolding download_file_def Let_def split_def w0_def r1_def w1_def w2_def r3_def w3_def
    by (rule refl)
  show "manifest_file (snd (download_file e url d w)) = manifest_file w"
    unfolding eq using w1 w3 by (simp add: logging_keeps split: option.split)
  show "sched_log (snd (download_file e url d w)) = sched_log w"
    unfolding eq using w1 w3 by (simp add: logging_keeps split: option.split)
  show "disk w \<subseteq> disk (snd (download_file e url d w))"
    unfolding eq using w1 w3 by (simp add: logging_keeps split: option.split)
  show "fst (download_file e url d w) \<Longrightarrow> d \<in> disk (snd (download_file e url d w))"
    unfolding eq using w1 w3 by (auto simp add: logging_keeps split: option.splits if_splits)
  show "dirs (snd (download_file e url d w)) = dirs w"
    unfolding eq using w1 w3 by (simp add: logging_keeps split: option.split)
qed

lemma process_asset_no_url:
  "browser_download_url a = None \<Longrightarrow> process_asset e sf a c w = (Inl KeyError, w)"
  by (simp add: process_asset_def)

lemma process_asset_skip:
  assumes "browser_download_url a = Some u" and "path_join e sf (name a) \<in> disk w"
  shows "process_asset e sf a c w =
     (Inr (c\<lparr>skipped := skipped c + 1\<rparr>),
      snd (create_scheduled_task e (path_join e sf (name a)) (task_name_of a)
             (find_schedule (name a)) (logging (Log_Skipping (path_join e sf (name a))) w)))"
  using assms by (simp add: process_asset_def task_name_of_def Let_def split_def)

lemma process_asset_download:
  assumes "browser_download_url a = Some u" and "path_join e sf (name a) \<notin> disk w"
  shows "process_asset e sf a c w =
     (if fst (download_file e u (path_join e sf (name a)) w)
      then (Inr (c\<lparr>successful := successful c + 1\<rparr>),
            snd (create_scheduled_task e (path_join e sf (name a)) (task_name_of a)
                   (find_schedule (name a))
                   (snd (download_file e u (path_join e sf (name a)) w))))
      else (Inr (c\<lparr>failed := failed c + 1\<rparr>),
            snd (download_file e u (path_join e sf (name a)) w)))"
  using assms by (simp add: process_asset_def task_name_of_def Let_def split_def)

lemma process_asset_keeps:
  "manifest_file (snd (process_asset e sf a c w)) = manifest_file w"
  "disk w \<subseteq> disk (snd (process_asset e sf a c w))"
  "dirs (snd (process_asset e sf a c w)) = dirs w"
proof -
  let ?d = "path_join e sf (name a)"
  show "manifest_file (snd (process_asset e sf a c w)) = manifest_file w"
  proof (cases "browser_download_url a")
    case None
    then show ?thesis by (simp add: process_asset_no_url)
  next
    case (Some u)
    note dl = download_file_keeps [where e = e and url = u and d = ?d and w = w]
    show ?thesis
      by (cases "?d \<in> disk w")
         (simp_all add: process_asset_skip [OF Some] process_asset_download [OF Some]
            create_scheduled_task_keeps logging_keeps dl)
  qed
  show "disk w \<subseteq> disk (snd (process_asset e sf a c w))"
  proof (cases "browser_download_url a")
    case None
    then show ?thesis by (simp add: process_asset_no_url)
  next
    case (Some u)
    note dl = download_file_keeps [where e = e and url = u and d = ?d and w = w]
    show ?thesis
      by (cases "?d \<in> disk w")
         (simp_all add: process_asset_skip [OF Some] process_asset_download [OF Some]
            create_scheduled_task_keeps logging_keeps dl)
  qed
  show "dirs (snd (process_asset e sf a c w)) = dirs w"
  proof (cases "browser_download_url a")
    case None
    then show ?thesis by (simp add: process_asset_no_url)
  next
    case (Some u)
    note dl = download_file_keeps [where e = e and url = u and d = ?d and w = w]
    show ?thesis
      by (cases "?d \<in> disk w")
         (simp_all add: process_asset_skip [OF Some] process_asset_download [OF Some]
            create_scheduled_task_keeps logging_keeps dl)
  qed
qed

lemma process_asset_result:
  assumes "fst (process_asset e sf a c w) = Inr c1"
  shows "has_url a"
    and "successful c1 + skipped c1 + failed c1 = Suc (successful c + skipped c + failed c)"
    and "failed c \<le> failed c1"
    and "failed c1 = failed c \<Longrightarrow> path_join e sf (name a) \<in> disk (snd (process_asset e sf a c w))"
proof -
  let ?d = "path_join e sf (name a)"
  from assms obtain u where u: "browser_download_url a = Some u"
    by (cases "browser_download_url a") (simp_all add: process_asset_no_url)
  then show "has_url a" by (simp add: has_url_def)
  note dl = download_file_keeps [where e = e and url = u and d = ?d and w = w]
  show "successful c1 + skipped c1 + failed c1 = Suc (successful c + skipped c + failed c)"
    using assms
    by (cases "?d \<in> disk w")
       (auto simp add: process_asset_skip [OF u] process_asset_download [OF u] split: if_splits)
  show "failed c \<le> failed c1"
    using assms
    by (cases "?d \<in> disk w")
       (auto simp add: process_asset_skip [OF u] process_asset_download [OF u] split: if_splits)
  show "failed c1 = failed c \<Longrightarrow> ?d \<in> disk (snd (process_asset e sf a c w))"
    using assms
    by (cases "?d \<in> disk w")
       (auto simp add: process_asset_skip [OF u] process_asset_download [OF u]
          create_scheduled_task_keeps logging_keeps dl split: if_splits)
qed

section \<open>The download loop\<close>

lemma process_assets_Cons:
  "process_assets e sf (a # rest) c w =
     (case fst (process_asset e sf a c w) of
        Inl x \<Rightarrow> (Inl x, snd (process_asset e sf a c w))
      | Inr c1 \<Rightarrow> process_assets e sf rest c1 (snd (process_asset e sf a c w)))"
  by (simp add: split_def Let_def)

lemma process_assets_step:
  "fst (process_asset e sf a c w) = Inr c1 \<Longrightarrow>
     process_assets e sf (a # rest) c w =
       process_assets e sf rest c1 (snd (process_asset e sf a c w))"
  by (simp add: process_assets_Cons del: process_assets.simps(2))

lemma process_assets_abort:
  "fst (process_asset e sf a c w) = Inl x \<Longrightarrow>
     process_assets e sf (a # rest) c w = (Inl x, snd (process_asset e sf a c w))"
  by (simp add: process_assets_Cons del: process_assets.simps(2))


lemma process_assets_manifest_file:
  "manifest_file (snd (process_assets e sf xs c w)) = manifest_file w"
proof (induction xs arbitrary: c w)
  case Nil
  show ?case by simp
next
  case (Cons a rest)
  show ?case
    by (cases "fst (process_asset e sf a c w)")
       (simp_all add: process_assets_step process_assets_abort process_asset_keeps Cons.IH
          del: process_assets.simps(2))
qed

lemma process_assets_dirs:
  "dirs (snd (process_assets e sf xs c w)) = dirs w"
proof (induction xs arbitrary: c w)
  case Nil
  show ?case by simp
next
  case (Cons a rest)
  show ?case
    by (cases "fst (process_asset e sf a c w)")
       (simp_all add: process_assets_step process_assets_abort process_asset_keeps Cons.IH
          del: process_assets.simps(2))
qed

lemma process_assets_disk_mono:
  "disk w \<subseteq> disk (snd (process_assets e sf xs c w))"
proof (induction xs arbitrary: c w)
  case Nil
  show ?case by simp
next
  case (Cons a rest)
  have first: "disk w \<subseteq> disk (snd (process_asset e sf a c w))"
    by (rule process_asset_keeps)
  show ?case
  proof (cases "fst (process_asset e sf a c w)")
    case (Inl x)
    with first show ?thesis by (simp add: process_assets_abort del: process_assets.simps(2))
  next
    case (Inr c1)
    from Cons.IH [of "snd (process_asset e sf a c w)" c1] first
    show ?thesis unfolding process_assets_step [OF Inr] by blast
  qed
qed

lemma process_assets_result:
  "fst (process_assets e sf xs c w) = Inr c' \<Longrightarrow>
     list_all has_url xs
     \<and> successful c' + skipped c' + failed c' = successful c + skipped c + failed c + length xs
     \<and> failed c \<le> failed c'
     \<and> (failed c' = failed c \<longrightarrow>
          list_all (\<lambda>b. path_join e sf (name b) \<in> disk (snd (process_assets e sf xs c w))) xs)"
proof (induction xs arbitrary: c w)
  case Nil
  then show ?case by simp
next
  case (Cons a rest)
  let ?w1 = "snd (process_asset e sf a c w)"
  from Cons.prems obtain c1 where c1: "fst (process_asset e sf a c w) = Inr c1"
    by (cases "fst (process_asset e sf a c w)")
       (simp_all add: process_assets_abort del: process_assets.simps(2))
  note st = process_asset_result [OF c1]
  note pc = process_assets_step [OF c1]
  from Cons.prems have "fst (process_assets e sf rest c1 ?w1) = Inr c'"
    unfolding pc .
  from Cons.IH [OF this]
  have ih: "list_all has_url rest"
    "successful c' + skipped c' + failed c' = successful c1 + skipped c1 + failed c1 + length rest"
    "failed c1 \<le> failed c'"
    "failed c' = failed c1 \<longrightarrow>
       list_all (\<lambda>b. path_join e sf (name b) \<in> disk (snd (process_assets e sf rest c1 ?w1))) rest"
    by simp_all
  have mono: "disk ?w1 \<subseteq> disk (snd (process_assets e sf rest c1 ?w1))"
    by (rule process_assets_disk_mono)
  have present: "list_all (\<lambda>b. path_join e sf (name b)
                     \<in> disk (snd (process_assets e sf rest c1 ?w1))) (a # rest)"
    if same: "failed c' = failed c"
  proof -
    from same st(3) ih(3) have f1: "failed c1 = failed c" and f2: "failed c' = failed c1"
      by simp_all
    from st(4) [OF f1] mono
    have "path_join e sf (name a) \<in> disk (snd (process_assets e sf rest c1 ?w1))" by blast
    with ih(4) f2 show ?thesis by simp
  qed
  from st(1) ih(1) have urls: "list_all has_url (a # rest)" by simp
  from st(2) ih(2)
  have total: "successful c' + skipped c' + failed c'
      = successful c + skipped c + failed c + length (a # rest)" by simp
  from st(3) ih(3) have le: "failed c \<le> failed c'" by simp
  from urls total le present show ?case unfolding pc by blast
qed

lemma process_assets_all_present:
  "list_all has_url xs \<Longrightarrow> list_all (\<lambda>a. path_join e sf (name a) \<in> disk w) xs \<Longrightarrow>
     fst (process_assets e sf xs c w) = Inr (c\<lparr>skipped := skipped c + length xs\<rparr>)
     \<and> disk (snd (process_assets e sf xs c w)) = disk w"
proof (induction xs arbitrary: c w)
  case Nil
  show ?case by simp
next
  case (Cons a rest)
  from Cons.prems(1) have "has_url a" and urls: "list_all has_url rest" by simp_all
  then obtain u where u: "browser_download_url a = Some u"
    by (auto simp: has_url_def)
  from Cons.prems(2) have a: "path_join e sf (name a) \<in> disk w"
    and rest: "list_all (\<lambda>a. path_join e sf (name a) \<in> disk w) rest" by simp_all
  have d1: "disk (snd (process_asset e sf a c w)) = disk w"
    by (simp add: process_asset_skip [OF u a] create_scheduled_task_keeps logging_keeps)
  have c1: "fst (process_asset e sf a c w) = Inr (c\<lparr>skipped := skipped c + 1\<rparr>)"
    by (simp add: process_asset_skip [OF u a])
  have "list_all (\<lambda>b. path_join e sf (name b) \<in> disk (snd (process_asset e sf a c w))) rest"
    unfolding d1 by (rule rest)
  from Cons.IH [OF urls this] show ?case
    unfolding process_assets_step [OF c1] by (simp add: d1)
qed

lemma process_assets_no_url:
  "list_all has_url pre \<Longrightarrow> browser_download_url a = None \<Longrightarrow>
     process_assets e sf (pre @ a # post) c w =
       (Inl KeyError, snd (process_assets e sf pre c w))
     \<and> (\<exists>c'. fst (process_assets e sf pre c w) = Inr c')"
proof (induction pre arbitrary: c w)
  case Nil
  then show ?case
    by (simp add: process_assets_Cons process_asset_no_url del: process_assets.simps(2))
next
  case (Cons b rest)
  from Cons.prems(1) have "has_url b" and urls: "list_all has_url rest" by simp_all
  then obtain u where u: "browser_download_url b = Some u"
    by (auto simp: has_url_def)
  have "\<exists>c1. fst (process_asset e sf b c w) = Inr c1"
    by (cases "path_join e sf (name b) \<in> disk w")
       (simp_all add: process_asset_skip [OF u] process_asset_download [OF u])
  then obtain c1 where c1: "fst (process_asset e sf b c w) = Inr c1" ..
  from Cons.IH [OF urls Cons.prems(2)] show ?case
    using process_assets_step [OF c1] by simp
qed

section \<open>What the loop logs and installs\<close>

lemma outcome_lines_chain:
  "prefix (log w) (log w1) \<Longrightarrow> prefix (log w1) (log w2) \<Longrightarrow>
     outcome_lines w w2 = outcome_lines w w1 @ outcome_lines w1 w2"
  by (auto simp: outcome_lines_def prefix_def)

lemma installer_calls_chain:
  "prefix (sched_log w) (sched_log w1) \<Longrightarrow> prefix (sched_log w1) (sched_log w2) \<Longrightarrow>
     installer_calls w w2 = installer_calls w w1 @ installer_calls w1 w2"
  by (auto simp: installer_calls_def prefix_def)

lemma outcome_lines_same:
  "log w1 = log w \<Longrightarrow> outcome_lines w w1 = []"
  "log w1 = log w \<Longrightarrow> outcome_lines w1 w2 = outcome_lines w w2"
  by (simp_all add: outcome_lines_def)

lemma installer_calls_same:
  "sched_log w1 = sched_log w \<Longrightarrow> installer_calls w w1 = []"
  "sched_log w1 = sched_log w \<Longrightarrow> installer_calls w1 w2 = installer_calls w w2"
  by (simp_all add: installer_calls_def)

lemma is_delete_commands:
  "is_delete (delete_command n)"
  "\<not> is_delete (create_command n target args)"
  by (simp_all add: is_delete_def delete_command_def create_command_def)

lemma run_schtasks_sched:
  "sched_log (snd (run_schtasks e cmd w)) = sched_log w @ [cmd]"
  by (simp add: run_schtasks_def)

lemma create_scheduled_task_calls:
  "prefix (sched_log w) (sched_log (snd (create_scheduled_task e p n s w)))"
  "installer_calls w (snd (create_scheduled_task e p n s w)) = [delete_command n]"
  by (simp_all add: create_scheduled_task_def installer_calls_def Let_def split_def
        run_schtasks_sched parse_schedule_keeps is_delete_commands
        split: sum.split option.split)

lemma download_file_lines:
  "prefix (log w) (log (snd (download_file e url d w)))"
  "outcome_lines w (snd (download_file e url d w)) =
     [if fst (download_file e url d w) then Log_Downloaded d else Log_Download_Failed url]"
proof -
  define w0 where "w0 = (case create_ssl_context e of Some c \<Rightarrow> w\<lparr>opener := Some c\<rparr> | None \<Rightarrow> w)"
  have w0: "log w0 = log w"
    by (simp add: w0_def split: option.split)
  define r1 where "r1 = fst (urlretrieve e url d w0)"
  define w1 where "w1 = snd (urlretrieve e url d w0)"
  have w1: "log w1 = log w"
    by (simp add: w1_def urlretrieve_keeps w0)
  define w2 where "w2 = (logging (Log_Retry url) w1)\<lparr>opener := Some Unverified\<rparr>"
  have w2: "log w2 = log w @ [Log_Retry url]"
    by (simp add: w2_def logging_def w1)
  define r3 where "r3 = fst (urlretrieve e url d w2)"
  define w3 where "w3 = snd (urlretrieve e url d w2)"
  have w3: "log w3 = log w @ [Log_Retry url]"
    by (simp add: w3_def urlretrieve_keeps w2)
  have eq: "download_file e url d w =
     (case r1 of None \<Rightarrow> (True, logging (Log_Downloaded d) w1)
      | Some x \<Rightarrow> if x = URLError \<or> x = SSLError then
           (if unverified_context_ok e then
              (case r3 of None \<Rightarrow> (True, logging (Log_Downloaded d) w3)
               | Some y \<Rightarrow> (False, logging (Log_Download_Failed url) w3))
            else (False, logging (Log_Download_Failed url) (logging (Log_Retry url) w1)))
         else (False, logging (Log_Download_Failed url) w1))"
    unfolding download_file_def Let_def split_def w0_def r1_def w1_def w2_def r3_def w3_def
    by (rule refl)
  show "prefix (log w) (log (snd (download_file e url d w)))"
    unfolding eq using w1 w3 by (simp add: logging_keeps split: option.split)
  show "outcome_lines w (snd (download_file e url d w)) =
     [if fst (download_file e url d w) then Log_Downloaded d else Log_Download_Failed url]"
    unfolding eq using w1 w3
    by (simp add: logging_keeps outcome_lines_def is_outcome_def split: option.split)
qed

lemma process_asset_trace:
  assumes u: "browser_download_url a = Some u"
  shows "\<exists>l c1. fst (process_asset e sf a c w) = Inr c1
     \<and> prefix (log w) (log (snd (process_asset e sf a c w)))
     \<and> prefix (sched_log w) (sched_log (snd (process_asset e sf a c w)))
     \<and> outcome_lines w (snd (process_asset e sf a c w)) = [l]
     \<and> outcome_of e sf a l
     \<and> successful c1 = successful c + length (filter is_downloaded [l])
     \<and> skipped c1 = skipped c + length (filter is_skipped [l])
     \<and> failed c1 = failed c + length (filter is_failure [l])
     \<and> installer_calls w (snd (process_asset e sf a c w))
         = map (\<lambda>b. delete_command (task_name_of b)) (not_failed [a] [l])
     \<and> (is_failure l \<or> path_join e sf (name a) \<in> disk (snd (process_asset e sf a c w)))"
proof -
  let ?d = "path_join e sf (name a)"
  let ?p = "process_asset e sf a c w"
  show ?thesis
  proof (cases "?d \<in> disk w")
    case True
    let ?w1 = "logging (Log_Skipping ?d) w"
    let ?w2 = "snd (create_scheduled_task e ?d (task_name_of a) (find_schedule (name a)) ?w1)"
    have p: "?p = (Inr (c\<lparr>skipped := skipped c + 1\<rparr>), ?w2)"
      by (rule process_asset_skip [OF u True])
    have lg: "log ?w2 = log w @ [Log_Skipping ?d]"
      by (simp add: create_scheduled_task_keeps logging_keeps)
    have sl: "sched_log ?w1 = sched_log w" by (simp add: logging_keeps)
    have calls: "installer_calls w ?w2 = [delete_command (task_name_of a)]"
      using create_scheduled_task_calls(2) [of ?w1 e ?d "task_name_of a" "find_schedule (name a)"]
      by (simp add: installer_calls_same(2) [OF sl])
    have pre: "prefix (sched_log w) (sched_log ?w2)"
      using create_scheduled_task_calls(1) [of ?w1 e ?d "task_name_of a" "find_schedule (name a)"]
      by (simp add: sl)
    have dk: "?d \<in> disk ?w2"
      using True by (simp add: create_scheduled_task_keeps logging_keeps)
    show ?thesis
      unfolding p
      by (intro exI [of _ "Log_Skipping ?d"] exI [of _ "c\<lparr>skipped := skipped c + 1\<rparr>"])
         (simp add: lg pre calls dk outcome_lines_def is_outcome_def outcome_of_def
            is_downloaded_def is_skipped_def is_failure_def not_failed_def)
  next
    case False
    let ?dl = "download_file e u ?d w"
    let ?w2 = "snd (create_scheduled_task e ?d (task_name_of a) (find_schedule (name a)) (snd ?dl))"
    note p = process_asset_download [OF u False]
    note dl = download_file_keeps [where e = e and url = u and d = ?d and w = w]
    note ln = download_file_lines [where e = e and url = u and d = ?d and w = w]
    show ?thesis
    proof (cases "fst ?dl")
      case True
      have p': "?p = (Inr (c\<lparr>successful := successful c + 1\<rparr>), ?w2)"
        using p [of c] True by simp
      have lg: "log ?w2 = log (snd ?dl)"
        by (simp add: create_scheduled_task_keeps)
      have lines: "outcome_lines w ?w2 = [Log_Downloaded ?d]"
        using ln(2) True by (simp add: outcome_lines_def lg)
      have pl: "prefix (log w) (log ?w2)"
        using ln(1) by (simp add: lg)
      have sl: "sched_log (snd ?dl) = sched_log w" by (rule dl)
      have calls: "installer_calls w ?w2 = [delete_command (task_name_of a)]"
        using create_scheduled_task_calls(2)
                [of "snd ?dl" e ?d "task_name_of a" "find_schedule (name a)"]
        by (simp add: installer_calls_same(2) [OF sl])
      have pre: "prefix (sched_log w) (sched_log ?w2)"
        using create_scheduled_task_calls(1)
                [of "snd ?dl" e ?d "task_name_of a" "find_schedule (name a)"]
        by (simp add: sl)
      have dk: "?d \<in> disk ?w2"
        using dl(4) True by (simp add: create_scheduled_task_keeps)
      show ?thesis
        unfolding p'
        by (intro exI [of _ "Log_Downloaded ?d"] exI [of _ "c\<lparr>successful := successful c + 1\<rparr>"])
           (simp add: lines pl pre calls dk outcome_of_def
              is_downloaded_def is_skipped_def is_failure_def not_failed_def)
    next
      case False
      have p': "?p = (Inr (c\<lparr>failed := failed c + 1\<rparr>), snd ?dl)"
        using p [of c] False by simp
      have lines: "outcome_lines w (snd ?dl) = [Log_Download_Failed u]"
        using ln(2) False by simp
      have sl: "sched_log (snd ?dl) = sched_log w" by (rule dl)
      show ?thesis
        unfolding p'
        by (intro exI [of _ "Log_Download_Failed u"] exI [of _ "c\<lparr>failed := failed c + 1\<rparr>"])
           (simp add: lines ln(1) sl installer_calls_same(1) [OF sl] outcome_of_def u
              is_downloaded_def is_skipped_def is_failure_def not_failed_def)
    qed
  qed
qed

lemma process_assets_trace:
  "list_all has_url xs \<Longrightarrow>
   \<exists>c'. fst (process_assets e sf xs c w) = Inr c'
     \<and> prefix (log w) (log (snd (process_assets e sf xs c w)))
     \<and> prefix (sched_log w) (sched_log (snd (process_assets e sf xs c w)))
     \<and> list_all2 (outcome_of e sf) xs (outcome_lines w (snd (process_assets e sf xs c w)))
     \<and> successful c' = successful c
         + length (filter is_downloaded (outcome_lines w (snd (process_assets e sf xs c w))))
     \<and> skipped c' = skipped c
         + length (filter is_skipped (outcome_lines w (snd (process_assets e sf xs c w))))
     \<and> failed c' = failed c
         + length (filter is_failure (outcome_lines w (snd (process_assets e sf xs c w))))
     \<and> installer_calls w (snd (process_assets e sf xs c w))
         = map (\<lambda>b. delete_command (task_name_of b))
             (not_failed xs (outcome_lines w (snd (process_assets e sf xs c w))))
     \<and> list_all (\<lambda>p. is_failure (snd p)
                     \<or> path_join e sf (name (fst p)) \<in> disk (snd (process_assets e sf xs c w)))
         (zip xs (outcome_lines w (snd (process_assets e sf xs c w))))"
proof (induction xs arbitrary: c w)
  case Nil
  show ?case
    by (simp add: outcome_lines_def installer_calls_def not_failed_def)
next
  case (Cons a rest)
  from Cons.prems have "has_url a" and urls: "list_all has_url rest" by simp_all
  then obtain u where u: "browser_download_url a = Some u"
    by (auto simp: has_url_def)
  define w1 where "w1 = snd (process_asset e sf a c w)"
  from process_asset_trace [OF u, of e sf c w]
  obtain l c1 where st: "fst (process_asset e sf a c w) = Inr c1"
      "prefix (log w) (log w1)" "prefix (sched_log w) (sched_log w1)"
      "outcome_lines w w1 = [l]" "outcome_of e sf a l"
      "successful c1 = successful c + length (filter is_downloaded [l])"
      "skipped c1 = skipped c + length (filter is_skipped [l])"
      "failed c1 = failed c + length (filter is_failure [l])"
      "installer_calls w w1 = map (\<lambda>b. delete_command (task_name_of b)) (not_failed [a] [l])"
      "is_failure l \<or> path_join e sf (name a) \<in> disk w1"
    unfolding w1_def by blast
  define w' where "w' = snd (process_assets e sf rest c1 w1)"
  define ls where "ls = outcome_lines w1 w'"
  have pc: "process_assets e sf (a # rest) c w = process_assets e sf rest c1 w1"
    unfolding w1_def by (rule process_assets_step [OF st(1)])
  from Cons.IH [OF urls, of c1 w1]
  obtain c' where ih: "fst (process_assets e sf rest c1 w1) = Inr c'"
      "prefix (log w1) (log w')" "prefix (sched_log w1) (sched_log w')"
      "list_all2 (outcome_of e sf) rest ls"
      "successful c' = successful c1 + length (filter is_downloaded ls)"
      "skipped c' = skipped c1 + length (filter is_skipped ls)"
      "failed c' = failed c1 + length (filter is_failure ls)"
      "installer_calls w1 w' = map (\<lambda>b. delete_command (task_name_of b)) (not_failed rest ls)"
      "list_all (\<lambda>p. is_failure (snd p) \<or> path_join e sf (name (fst p)) \<in> disk w') (zip rest ls)"
    unfolding w'_def ls_def by blast
  have lines: "outcome_lines w w' = l # ls"
    using outcome_lines_chain [OF st(2) ih(2)] by (simp add: st(4) ls_def)
  have calls: "installer_calls w w'
      = map (\<lambda>b. delete_command (task_name_of b)) (not_failed (a # rest) (l # ls))"
    using installer_calls_chain [OF st(3) ih(3)]
    by (simp add: st(9) ih(8) not_failed_def)
  have mono: "disk w1 \<subseteq> disk w'"
    unfolding w'_def by (rule process_assets_disk_mono)
  with st(10) have stored: "is_failure l \<or> path_join e sf (name a) \<in> disk w'" by blast
  have r: "snd (process_assets e sf (a # rest) c w) = w'"
    unfolding pc w'_def by (rule refl)
  have f: "fst (process_assets e sf (a # rest) c w) = Inr c'"
    unfolding pc by (rule ih(1))
  have "prefix (log w) (log w')" using st(2) ih(2) by (rule prefix_order.trans)
  moreover have "prefix (sched_log w) (sched_log w')" using st(3) ih(3) by (rule prefix_order.trans)
  moreover have "list_all2 (outcome_of e sf) (a # rest) (l # ls)" using st(5) ih(4) by simp
  moreover have "successful c' = successful c + length (filter is_downloaded (l # ls))"
    using st(6) ih(5) by simp
  moreover have "skipped c' = skipped c + length (filter is_skipped (l # ls))"
    using st(7) ih(6) by simp
  moreover have "failed c' = failed c + length (filter is_failure (l # ls))"
    using st(8) ih(7) by simp
  moreover have "list_all (\<lambda>p. is_failure (snd p) \<or> path_join e sf (name (fst p)) \<in> disk w')
                   (zip (a # rest) (l # ls))"
    using stored ih(9) by simp
  ultimately show ?case
    unfolding r f lines using calls by (intro exI [of _ c']) simp
qed

section \<open>The manifest update\<close>

lemma record_files_Cons:
  "record_files e tag (a # rest) fs w =
     record_files e tag rest
       (AList.update (name a) \<lparr>release = tag, downloaded = now_iso e (tick w)\<rparr> fs)
       (w\<lparr>tick := Suc (tick w)\<rparr>)"
  by (simp add: now_isoformat_def)

lemma record_files_world:
  "snd (record_files e tag xs fs w) = w\<lparr>tick := tick w + length xs\<rparr>"
  by (induction xs arbitrary: fs w)
     (simp_all add: record_files_Cons del: record_files.simps(2))

lemma record_files_other:
  "n \<notin> name ` set xs \<Longrightarrow> map_of (fst (record_files e tag xs fs w)) n = map_of fs n"
  by (induction xs arbitrary: fs w)
     (simp_all add: record_files_Cons update_conv' del: record_files.simps(2))

lemma record_files_entry:
  "n \<in> name ` set xs \<Longrightarrow>
     \<exists>k. tick w \<le> k \<and> k < tick w + length xs
       \<and> map_of (fst (record_files e tag xs fs w)) n
           = Some \<lparr>release = tag, downloaded = now_iso e k\<rparr>"
proof (induction xs arbitrary: fs w)
  case Nil
  then show ?case by simp
next
  case (Cons b rest)
  let ?fs = "AList.update (name b) \<lparr>release = tag, downloaded = now_iso e (tick w)\<rparr> fs"
  let ?w = "w\<lparr>tick := Suc (tick w)\<rparr>"
  show ?case
  proof (cases "n \<in> name ` set rest")
    case True
    from Cons.IH [OF True, of ?w ?fs]
    obtain k where "Suc (tick w) \<le> k" "k < Suc (tick w) + length rest"
      "map_of (fst (record_files e tag rest ?fs ?w)) n
         = Some \<lparr>release = tag, downloaded = now_iso e k\<rparr>"
      by auto
    then show ?thesis
      unfolding record_files_Cons by (intro exI [of _ k]) simp
  next
    case False
    with Cons.prems have ab: "n = name b" by auto
    from False have "map_of (fst (record_files e tag rest ?fs ?w)) n = map_of ?fs n"
      by (rule record_files_other)
    also have "\<dots> = Some \<lparr>release = tag, downloaded = now_iso e (tick w)\<rparr>"
      by (simp add: ab update_conv')
    finally show ?thesis
      unfolding record_files_Cons by (intro exI [of _ "tick w"]) simp
  qed
qed

lemma tags_of_update:
  "map_of fs k = Some x \<Longrightarrow> release x = tag \<Longrightarrow>
     tags_of (AList.update k \<lparr>release = tag, downloaded = ts\<rparr> fs) = tags_of fs"
  by (induction fs) (auto simp: tags_of_def split: if_splits)

lemma record_files_tags:
  "list_all (\<lambda>a. \<exists>x. map_of fs (name a) = Some x \<and> release x = tag) xs \<Longrightarrow>
     tags_of (fst (record_files e tag xs fs w)) = tags_of fs"
proof (induction xs arbitrary: fs w)
  case Nil
  show ?case by simp
next
  case (Cons b rest)
  let ?v = "\<lparr>release = tag, downloaded = now_iso e (tick w)\<rparr>"
  let ?fs = "AList.update (name b) ?v fs"
  from Cons.prems obtain x where x: "map_of fs (name b) = Some x" "release x = tag"
    by auto
  have t: "tags_of ?fs = tags_of fs" using x by (rule tags_of_update)
  have "list_all (\<lambda>a. \<exists>x. map_of ?fs (name a) = Some x \<and> release x = tag) rest"
    using Cons.prems by (auto simp: list_all_iff update_conv')
  from Cons.IH [OF this] show ?case
    unfolding record_files_Cons by (simp add: t)
qed

lemma save_manifest_dirs:
  "dirs (save_manifest e m w) = dirs w"
  by (simp add: save_manifest_def Let_def logging_def split: write_outcome.split)

lemma save_manifest_keeps:
  "disk (save_manifest e m w) = disk w"
  "manifest_file (save_manifest e m w) =
     (case write_result e (tick w) of
        Written \<Rightarrow> Parses (Manifest m)
      | Not_Written \<Rightarrow> manifest_file w
      | Truncated \<Rightarrow> Corrupt)"
  by (simp_all add: save_manifest_def Let_def logging_def split: write_outcome.split)

lemma update_manifest_nothing:
  "successful c = 0 \<Longrightarrow> skipped c = 0 \<Longrightarrow> update_manifest e tag xs c w = (Inr (), w)"
  by (simp add: update_manifest_def)

lemma update_manifest_raises:
  "0 < successful c \<or> 0 < skipped c \<Longrightarrow> load_manifest w = Other_JSON \<Longrightarrow>
     update_manifest e tag xs c w = (Inl Other_Exception, w)"
  by (simp add: update_manifest_def)

lemma update_manifest_saves:
  "0 < successful c \<or> 0 < skipped c \<Longrightarrow> load_manifest w = Manifest m \<Longrightarrow>
     update_manifest e tag xs c w =
       (Inr (),
        save_manifest e
          \<lparr>downloaded_releases =
             (if tag \<in> set (downloaded_releases m) then downloaded_releases m
              else downloaded_releases m @ [tag]),
           files = fst (record_files e tag xs (files m) w)\<rparr>
          (w\<lparr>tick := tick w + length xs\<rparr>))"
  by (simp add: update_manifest_def Let_def split_def record_files_world)

lemma update_manifest_disk:
  "disk (snd (update_manifest e tag xs c w)) = disk w"
proof (cases "0 < successful c \<or> 0 < skipped c")
  case True
  then show ?thesis
    by (cases "load_manifest w")
       (simp_all add: update_manifest_raises update_manifest_saves save_manifest_keeps)
next
  case False
  then show ?thesis by (simp add: update_manifest_nothing)
qed

lemma update_manifest_dirs:
  "dirs (snd (update_manifest e tag xs c w)) = dirs w"
proof (cases "0 < successful c \<or> 0 < skipped c")
  case True
  then show ?thesis
    by (cases "load_manifest w")
       (simp_all add: update_manifest_raises update_manifest_saves save_manifest_dirs)
next
  case False
  then show ?thesis by (simp add: update_manifest_nothing)
qed

section \<open>The stages of \<open>main\<close>\<close>

lemma makedirs_keeps:
  "disk (snd (makedirs e path w)) = disk w"
  "manifest_file (snd (makedirs e path w)) = manifest_file w"
  "sched_log (snd (makedirs e path w)) = sched_log w"
  "log (snd (makedirs e path w)) = log w"
  "tick (snd (makedirs e path w)) = tick w"
  "fst (makedirs e path w) = None \<Longrightarrow> path \<in> dirs (snd (makedirs e path w))"
  "path \<in> dirs w \<Longrightarrow> makedirs e path w = (None, w)"
  by (auto simp add: makedirs_def split: if_splits)

lemma get_storage_folder_keeps:
  "disk (snd (get_storage_folder e w)) = disk w"
  "manifest_file (snd (get_storage_folder e w)) = manifest_file w"
  "sched_log (snd (get_storage_folder e w)) = sched_log w"
  "log (snd (get_storage_folder e w)) = log w"
  "tick (snd (get_storage_folder e w)) = tick w"
  by (simp_all add: get_storage_folder_def Let_def split_def makedirs_keeps split: option.split)

lemma get_storage_folder_result:
  "fst (get_storage_folder e w) = Inr sf \<Longrightarrow>
     sf = storage_path e \<and> storage_path e \<in> dirs (snd (get_storage_folder e w))"
  "storage_path e \<in> dirs w \<Longrightarrow> get_storage_folder e w = (Inr (storage_path e), w)"
  "fst (get_storage_folder e w) = Inl x \<Longrightarrow> snd (get_storage_folder e w) = w"
  by (auto simp add: get_storage_folder_def Let_def split_def makedirs_def
        split: option.splits if_splits)

lemma main_fetch_failed:
  "fetched_release e w = None \<Longrightarrow> main e w = (False, world_after_fetch e w)"
  by (simp add: main_def fetched_release_def world_after_fetch_def Let_def split_def)

lemma main_no_storage:
  "fetched_release e w = Some info \<Longrightarrow> storage_folder_of e w = Inl x \<Longrightarrow>
     main e w = (False, world_before_loop e w)"
  by (simp add: main_def fetched_release_def world_after_fetch_def storage_folder_of_def
        world_before_loop_def Let_def split_def)

lemma main_nameless:
  "fetched_release e w = Some info \<Longrightarrow> Nameless \<in> set (assets info) \<Longrightarrow>
     main e w = (False, world_before_loop e w)"
  by (simp add: main_def fetched_release_def world_after_fetch_def world_before_loop_def
        select_exe_def Let_def split_def split: sum.split)

lemma main_no_exe:
  "fetched_release e w = Some info \<Longrightarrow> exe_assets info = [] \<Longrightarrow>
     main e w = (False, world_before_loop e w)"
  by (simp add: main_def fetched_release_def world_after_fetch_def world_before_loop_def
        select_exe_def exe_assets_def Let_def split_def split: sum.split)

lemma main_run:
  assumes "fetched_release e w = Some info"
    and "storage_folder_of e w = Inr sf"
    and "Nameless \<notin> set (assets info)"
    and "exe_assets info \<noteq> []"
  shows "main e w =
       (case fst (download_loop e w info) of
          Inl x \<Rightarrow> (False, snd (download_loop e w info))
        | Inr c \<Rightarrow>
            (case fst (update_manifest e (tag_of info) (exe_assets info) c
                         (snd (download_loop e w info))) of
               Inl x \<Rightarrow>
                 (False, snd (update_manifest e (tag_of info) (exe_assets info) c
                               (snd (download_loop e w info))))
             | Inr u \<Rightarrow>
                 (failed c = 0,
                  logging (Log_Complete (successful c) (skipped c) (failed c))
                    (snd (update_manifest e (tag_of info) (exe_assets info) c
                           (snd (download_loop e w info)))))))"
proof -
  from assms(2) have "storage_folder_of e w = Inr (storage_path e)"
    using get_storage_folder_result(1) [of e "world_after_fetch e w" sf]
    by (simp add: storage_folder_of_def)
  with assms(1,3,4) show ?thesis
    unfolding fetched_release_def world_after_fetch_def exe_assets_def tag_of_def
      download_loop_def storage_folder_of_def world_before_loop_def
    by (simp add: main_def select_exe_def Let_def split_def split: sum.split)
qed

lemma world_after_fetch_keeps:
  "disk (world_after_fetch e w) = disk w"
  "manifest_file (world_after_fetch e w) = manifest_file w"
  "dirs (world_after_fetch e w) = dirs w"
  by (simp_all add: world_after_fetch_def fetch_keeps schedule_self_keeps)

lemma world_before_loop_keeps:
  "disk (world_before_loop e w) = disk w"
  "manifest_file (world_before_loop e w) = manifest_file w"
  by (simp_all add: world_before_loop_def get_storage_folder_keeps world_after_fetch_keeps)

lemma download_loop_keeps:
  "manifest_file (snd (download_loop e w info)) = manifest_file w"
  "dirs (snd (download_loop e w info)) = dirs (world_before_loop e w)"
  by (simp_all add: download_loop_def process_assets_manifest_file process_assets_dirs
        world_before_loop_keeps)

lemma download_loop_result:
  assumes "fst (download_loop e w info) = Inr c"
  shows "list_all has_url (exe_assets info)"
    and "successful c + skipped c + failed c = length (exe_assets info)"
    and "failed c = 0 \<Longrightarrow>
           list_all (\<lambda>b. path_join e (storage_path e) (name b) \<in> disk (snd (download_loop e w info)))
             (exe_assets info)"
  using process_assets_result
          [of e "storage_path e" "exe_assets info" "\<lparr>successful = 0, skipped = 0, failed = 0\<rparr>"
              "world_before_loop e w" c] assms
  by (simp_all add: download_loop_def)

lemma load_manifest_cong:
  "manifest_file w' = manifest_file w \<Longrightarrow> load_manifest w' = load_manifest w"
  by (simp add: load_manifest_def)

lemma load_manifest_other:
  "load_manifest w = Other_JSON \<longleftrightarrow> manifest_file w = Parses Other_JSON"
  by (simp add: load_manifest_def split: manifest_file.split)

lemma main_success:
  assumes run: "fst (main e w)" and info: "fetched_release e w = Some info"
  shows "storage_folder_of e w = Inr (storage_path e)"
    and "Nameless \<notin> set (assets info)"
    and "exe_assets info \<noteq> []"
    and "\<exists>c m. fst (download_loop e w info) = Inr c \<and> failed c = 0
           \<and> (0 < successful c \<or> 0 < skipped c)
           \<and> load_manifest (snd (download_loop e w info)) = Manifest m
           \<and> snd (main e w) =
               logging (Log_Complete (successful c) (skipped c) (failed c))
                 (snd (update_manifest e (tag_of info) (exe_assets info) c
                        (snd (download_loop e w info))))"
proof -
  let ?w3 = "snd (download_loop e w info)"
  show ok: "storage_folder_of e w = Inr (storage_path e)"
  proof (cases "storage_folder_of e w")
    case (Inl x)
    from main_no_storage [OF info this] run show ?thesis by simp
  next
    case (Inr sf)
    then show ?thesis
      using get_storage_folder_result(1) [of e "world_after_fetch e w" sf]
      by (simp add: storage_folder_of_def)
  qed
  show named: "Nameless \<notin> set (assets info)"
  proof
    assume "Nameless \<in> set (assets info)"
    from main_nameless [OF info this] run show False by simp
  qed
  show ne: "exe_assets info \<noteq> []"
  proof
    assume "exe_assets info = []"
    from main_no_exe [OF info this] run show False by simp
  qed
  note mr = main_run [OF info ok named ne]
  from run obtain c where c: "fst (download_loop e w info) = Inr c"
    unfolding mr by (cases "fst (download_loop e w info)") simp_all
  let ?u = "update_manifest e (tag_of info) (exe_assets info) c ?w3"
  from run have ok: "fst ?u = Inr ()" and f0: "failed c = 0"
    unfolding mr c by (cases "fst ?u"; simp)+
  have total: "successful c + skipped c + failed c = length (exe_assets info)"
    by (rule download_loop_result [OF c])
  with f0 ne have pos: "0 < successful c \<or> 0 < skipped c"
    by (cases "exe_assets info") auto
  have "\<exists>m. load_manifest ?w3 = Manifest m"
  proof (cases "load_manifest ?w3")
    case (Manifest m)
    then show ?thesis by blast
  next
    case Other_JSON
    from update_manifest_raises [OF pos Other_JSON] ok show ?thesis by simp
  qed
  then obtain m where m: "load_manifest ?w3 = Manifest m" ..
  have "snd (main e w) = logging (Log_Complete (successful c) (skipped c) (failed c)) (snd ?u)"
    unfolding mr c using ok by simp
  with c f0 pos m
  show "\<exists>c m. fst (download_loop e w info) = Inr c \<and> failed c = 0
           \<and> (0 < successful c \<or> 0 < skipped c)
           \<and> load_manifest (snd (download_loop e w info)) = Manifest m
           \<and> snd (main e w) =
               logging (Log_Complete (successful c) (skipped c) (failed c))
                 (snd (update_manifest e (tag_of info) (exe_assets info) c
                        (snd (download_loop e w info))))"
    by blast
qed

section \<open>The two attempts of the fetcher\<close>

lemma urlretrieve_attempt:
  "fst (urlretrieve e url d w) =
     (case urlretrieve_result e (tick w) url (opener w) of
        Retrieved \<Rightarrow> None | Retrieve_Failed x partial \<Rightarrow> Some x)"
  "net_log (snd (urlretrieve e url d w)) = net_log w @ [(url, opener w)]"
  "tick (snd (urlretrieve e url d w)) = Suc (tick w)"
  by (simp_all add: urlretrieve_def Let_def split: retrieve_outcome.split)

lemma fetch_verified_first:
  assumes "default_context_ok e" and "unverified_context_ok e"
  shows "fst (fetch_latest_release e owner repo w) =
       (case urlopen_result e (tick w) (release_url owner repo) (Some Verified) of
          Inr data \<Rightarrow> Some data
        | Inl x \<Rightarrow>
            if x = URLError \<or> x = SSLError then
              (case urlopen_result e (Suc (tick w)) (release_url owner repo) (Some Unverified) of
                 Inr data \<Rightarrow> Some data
               | Inl y \<Rightarrow> None)
            else None)"
    and "net_log (snd (fetch_latest_release e owner repo w)) =
       net_log w @
       (case urlopen_result e (tick w) (release_url owner repo) (Some Verified) of
          Inr data \<Rightarrow> [(release_url owner repo, Some Verified)]
        | Inl x \<Rightarrow>
            if x = URLError \<or> x = SSLError then
              [(release_url owner repo, Some Verified), (release_url owner repo, Some Unverified)]
            else [(release_url owner repo, Some Verified)])"
  using assms
  by (simp_all add: fetch_latest_release_def create_ssl_context_def urlopen_def logging_def
        Let_def split: sum.split)

lemma download_verified_first:
  assumes "default_context_ok e" and "unverified_context_ok e"
  shows "fst (download_file e url d w) =
       (case urlretrieve_result e (tick w) url (Some Verified) of
          Retrieved \<Rightarrow> True
        | Retrieve_Failed x partial \<Rightarrow>
            (x = URLError \<or> x = SSLError)
            \<and> urlretrieve_result e (Suc (tick w)) url (Some Unverified) = Retrieved)"
    and "net_log (snd (download_file e url d w)) =
       net_log w @
       (case urlretrieve_result e (tick w) url (Some Verified) of
          Retrieved \<Rightarrow> [(url, Some Verified)]
        | Retrieve_Failed x partial \<Rightarrow>
            if x = URLError \<or> x = SSLError then [(url, Some Verified), (url, Some Unverified)]
            else [(url, Some Verified)])"
proof -
  define w0 where "w0 = w\<lparr>opener := Some Verified\<rparr>"
  define r1 where "r1 = fst (urlretrieve e url d w0)"
  define w1 where "w1 = snd (urlretrieve e url d w0)"
  define w2 where "w2 = (logging (Log_Retry url) w1)\<lparr>opener := Some Unverified\<rparr>"
  define r3 where "r3 = fst (urlretrieve e url d w2)"
  define w3 where "w3 = snd (urlretrieve e url d w2)"
  have ctx: "create_ssl_context e = Some Verified"
    using assms by (simp add: create_ssl_context_def)
  have unv: "unverified_context_ok e = True"
    using assms by simp
  have eq: "download_file e url d w =
     (case r1 of None \<Rightarrow> (True, logging (Log_Downloaded d) w1)
      | Some x \<Rightarrow> if x = URLError \<or> x = SSLError then
           (case r3 of None \<Rightarrow> (True, logging (Log_Downloaded d) w3)
               | Some y \<Rightarrow> (False, logging (Log_Download_Failed url) w3))
         else (False, logging (Log_Download_Failed url) w1))"
    unfolding download_file_def Let_def split_def w0_def r1_def w1_def w2_def r3_def w3_def
      ctx unv option.case if_True
    by (rule refl)
  have r1: "r1 = (case urlretrieve_result e (tick w) url (Some Verified) of
                    Retrieved \<Rightarrow> None | Retrieve_Failed x partial \<Rightarrow> Some x)"
    by (simp add: r1_def w0_def urlretrieve_attempt)
  have w1: "net_log w1 = net_log w @ [(url, Some Verified)]" "tick w1 = Suc (tick w)"
    by (simp_all add: w1_def w0_def urlretrieve_attempt)
  have w2: "net_log w2 = net_log w @ [(url, Some Verified)]" "tick w2 = Suc (tick w)"
    "opener w2 = Some Unverified"
    by (simp_all add: w2_def logging_def w1)
  have r3: "r3 = (case urlretrieve_result e (Suc (tick w)) url (Some Unverified) of
                    Retrieved \<Rightarrow> None | Retrieve_Failed x partial \<Rightarrow> Some x)"
    by (simp add: r3_def urlretrieve_attempt w2)
  have w3: "net_log w3 = net_log w @ [(url, Some Verified), (url, Some Unverified)]"
    by (simp add: w3_def urlretrieve_attempt w2)
  show "fst (download_file e url d w) =
       (case urlretrieve_result e (tick w) url (Some Verified) of
          Retrieved \<Rightarrow> True
        | Retrieve_Failed x partial \<Rightarrow>
            (x = URLError \<or> x = SSLError)
            \<and> urlretrieve_result e (Suc (tick w)) url (Some Unverified) = Retrieved)"
    unfolding eq r1 r3 by (simp split: retrieve_outcome.split)
  show "net_log (snd (download_file e url d w)) =
       net_log w @
       (case urlretrieve_result e (tick w) url (Some Verified) of
          Retrieved \<Rightarrow> [(url, Some Verified)]
        | Retrieve_Failed x partial \<Rightarrow>
            if x = URLError \<or> x = SSLError then [(url, Some Verified), (url, Some Unverified)]
            else [(url, Some Verified)])"
    unfolding eq r1 r3 by (simp add: logging_keeps w1 w3 split: retrieve_outcome.split)
qed

section \<open>Properties of the pipeline\<close>

text \<open>
  C4. Verify, then fall back. Whenever the SSL library can create both contexts (the
  default, certificate-verifying one and the unverified one), every metadata fetch and
  every file download makes its first attempt with the verifying context. If that attempt
  raises \<open>URLError\<close> or \<open>SSLError\<close>, exactly one retry is made, with the unverified context:
  when the retry succeeds the operation reports success after exactly two attempts, and
  when the retry fails it reports failure (\<open>None\<close> for the fetch, \<open>False\<close> for the
  download) after exactly two attempts. An exception of another class in the first
  attempt is reported as failure after that one attempt. Neither operation has an
  exceptional result. (When the default context cannot be created, the first attempt is
  itself made with an unverified context: see the counterexample.)
\<close>

theorem verify_then_fallback:
  assumes "default_context_ok e" and "unverified_context_ok e"
  shows "fst (fetch_latest_release e owner repo w) =
       (case urlopen_result e (tick w) (release_url owner repo) (Some Verified) of
          Inr data \<Rightarrow> Some data
        | Inl x \<Rightarrow>
            if x = URLError \<or> x = SSLError then
              (case urlopen_result e (Suc (tick w)) (release_url owner repo) (Some Unverified) of
                 Inr data \<Rightarrow> Some data
               | Inl y \<Rightarrow> None)
            else None)
    \<and> net_log (snd (fetch_latest_release e owner repo w)) =
       net_log w @
       (case urlopen_result e (tick w) (release_url owner repo) (Some Verified) of
          Inr data \<Rightarrow> [(release_url owner repo, Some Verified)]
        | Inl x \<Rightarrow>
            if x = URLError \<or> x = SSLError then
              [(release_url owner repo, Some Verified), (release_url owner repo, Some Unverified)]
            else [(release_url owner repo, Some Verified)])
    \<and> fst (download_file e url d w) =
       (case urlretrieve_result e (tick w) url (Some Verified) of
          Retrieved \<Rightarrow> True
        | Retrieve_Failed x partial \<Rightarrow>
            (x = URLError \<or> x = SSLError)
            \<and> urlretrieve_result e (Suc (tick w)) url (Some Unverified) = Retrieved)
    \<and> net_log (snd (download_file e url d w)) =
       net_log w @
       (case urlretrieve_result e (tick w) url (Some Verified) of
          Retrieved \<Rightarrow> [(url, Some Verified)]
        | Retrieve_Failed x partial \<Rightarrow>
            if x = URLError \<or> x = SSLError then [(url, Some Verified), (url, Some Unverified)]
            else [(url, Some Verified)])"
  by (intro conjI fetch_verified_first download_verified_first assms)

theorem verify_then_fallback_witness:
  "default_context_ok strict_tls_env \<and> unverified_context_ok strict_tls_env
   \<and> fst (fetch_latest_release strict_tls_env ''YashasSingh'' ''cybersecurity'' example_world)
       = Some example_release
   \<and> length (net_log (snd (fetch_latest_release strict_tls_env ''YashasSingh''
                              ''cybersecurity'' example_world))) = 2
   \<and> fst (download_file strict_tls_env ''url-1'' ''wifi-driver.exe'' example_world)
   \<and> net_log (snd (download_file strict_tls_env ''url-1'' ''wifi-driver.exe'' example_world))
       = [(''url-1'', Some Verified), (''url-1'', Some Unverified)]"
proof -
  have a: "default_context_ok strict_tls_env"
    by (simp add: strict_tls_env_def example_env_def)
  have b: "unverified_context_ok strict_tls_env"
    by (simp add: strict_tls_env_def example_env_def)
  from verify_then_fallback [OF a b, of "''YashasSingh''" "''cybersecurity''" example_world
         "''url-1''" "''wifi-driver.exe''"]
  show ?thesis
    using a b by (simp add: strict_tls_env_def example_env_def example_world_def)
qed

text \<open>
  On a host where \<open>ssl.create_default_context()\<close> raises, \<open>create_ssl_context\<close> falls back
  to an unverified context, and the only attempt of the fetch is made without certificate
  verification.
\<close>

theorem verify_then_fallback_counterexample:
  "fst (fetch_latest_release no_default_context_env ''YashasSingh'' ''cybersecurity''
          example_world) = Some example_release
   \<and> map snd (net_log (snd (fetch_latest_release no_default_context_env ''YashasSingh''
                               ''cybersecurity'' example_world))) = [Some Unverified]"
  by code_simp



text \<open>
  C10. The manifest update. When \<open>successful + skipped = 0\<close> nothing is written and the
  state is unchanged. When \<open>successful + skipped > 0\<close> and the loaded document has the
  manifest's shape, the update completes and calls \<open>save_manifest\<close> once, best effort: if
  the write succeeds, the persisted manifest is the loaded one with the release tag
  appended unless it was already present (so a list without duplicates stays so), with an
  entry holding the tag and a clock reading of this run for every executable asset, and
  with the entries of all other names unchanged; if the write fails before the file is
  opened the file is unchanged, and if it fails later the file is left corrupt. When
  \<open>successful + skipped > 0\<close> and the loaded document is some other JSON value, the update
  raises and nothing is written.
\<close>

theorem manifest_update:
  "(successful c = 0 \<and> skipped c = 0 \<longrightarrow> update_manifest e tag xs c w = (Inr (), w))
   \<and> ((0 < successful c \<or> 0 < skipped c) \<and> load_manifest w = Other_JSON
        \<longrightarrow> update_manifest e tag xs c w = (Inl Other_Exception, w))
   \<and> ((0 < successful c \<or> 0 < skipped c) \<and> load_manifest w = Manifest m
        \<longrightarrow> (\<exists>fs. fst (update_manifest e tag xs c w) = Inr ()
              \<and> manifest_file (snd (update_manifest e tag xs c w)) =
                  (case write_result e (tick w + length xs) of
                     Written \<Rightarrow>
                       Parses (Manifest
                         \<lparr>downloaded_releases =
                            (if tag \<in> set (downloaded_releases m) then downloaded_releases m
                             else downloaded_releases m @ [tag]),
                          files = fs\<rparr>)
                   | Not_Written \<Rightarrow> manifest_file w
                   | Truncated \<Rightarrow> Corrupt)
              \<and> list_all
                  (\<lambda>a. \<exists>k. tick w \<le> k \<and> k < tick w + length xs
                         \<and> map_of fs (name a)
                             = Some \<lparr>release = tag, downloaded = now_iso e k\<rparr>) xs
              \<and> (\<forall>n. n \<notin> name ` set xs \<longrightarrow> map_of fs n = map_of (files m) n)))
   \<and> (distinct (downloaded_releases m)
        \<longrightarrow> distinct (if tag \<in> set (downloaded_releases m) then downloaded_releases m
                      else downloaded_releases m @ [tag]))"
proof -
  have a: "successful c = 0 \<and> skipped c = 0 \<longrightarrow> update_manifest e tag xs c w = (Inr (), w)"
    by (simp add: update_manifest_nothing)
  have b: "(0 < successful c \<or> 0 < skipped c) \<and> load_manifest w = Other_JSON
        \<longrightarrow> update_manifest e tag xs c w = (Inl Other_Exception, w)"
    using update_manifest_raises by blast
  have c: "(0 < successful c \<or> 0 < skipped c) \<and> load_manifest w = Manifest m
        \<longrightarrow> (\<exists>fs. fst (update_manifest e tag xs c w) = Inr ()
              \<and> manifest_file (snd (update_manifest e tag xs c w)) =
                  (case write_result e (tick w + length xs) of
                     Written \<Rightarrow>
                       Parses (Manifest
                         \<lparr>downloaded_releases =
                            (if tag \<in> set (downloaded_releases m) then downloaded_releases m
                             else downloaded_releases m @ [tag]),
                          files = fs\<rparr>)
                   | Not_Written \<Rightarrow> manifest_file w
                   | Truncated \<Rightarrow> Corrupt)
              \<and> list_all
                  (\<lambda>a. \<exists>k. tick w \<le> k \<and> k < tick w + length xs
                         \<and> map_of fs (name a)
                             = Some \<lparr>release = tag, downloaded = now_iso e k\<rparr>) xs
              \<and> (\<forall>n. n \<notin> name ` set xs \<longrightarrow> map_of fs n = map_of (files m) n))"
  proof
    assume h: "(0 < successful c \<or> 0 < skipped c) \<and> load_manifest w = Manifest m"
    let ?fs = "fst (record_files e tag xs (files m) w)"
    from h have eq: "update_manifest e tag xs c w =
       (Inr (),
        save_manifest e
          \<lparr>downloaded_releases =
             (if tag \<in> set (downloaded_releases m) then downloaded_releases m
              else downloaded_releases m @ [tag]),
           files = ?fs\<rparr>
          (w\<lparr>tick := tick w + length xs\<rparr>))"
      using update_manifest_saves by blast
    have entries: "list_all
                  (\<lambda>a. \<exists>k. tick w \<le> k \<and> k < tick w + length xs
                         \<and> map_of ?fs (name a)
                             = Some \<lparr>release = tag, downloaded = now_iso e k\<rparr>) xs"
      unfolding list_all_iff using record_files_entry by blast
    have others: "\<forall>n. n \<notin> name ` set xs \<longrightarrow> map_of ?fs n = map_of (files m) n"
      using record_files_other by blast
    have saved: "manifest_file (snd (update_manifest e tag xs c w)) =
                  (case write_result e (tick w + length xs) of
                     Written \<Rightarrow>
                       Parses (Manifest
                         \<lparr>downloaded_releases =
                            (if tag \<in> set (downloaded_releases m) then downloaded_releases m
                             else downloaded_releases m @ [tag]),
                          files = ?fs\<rparr>)
                   | Not_Written \<Rightarrow> manifest_file w
                   | Truncated \<Rightarrow> Corrupt)"
      unfolding eq by (simp add: save_manifest_keeps split: write_outcome.split)
    have ok: "fst (update_manifest e tag xs c w) = Inr ()"
      unfolding eq by simp
    from ok saved entries others
    show "\<exists>fs. fst (update_manifest e tag xs c w) = Inr ()
              \<and> manifest_file (snd (update_manifest e tag xs c w)) =
                  (case write_result e (tick w + length xs) of
                     Written \<Rightarrow>
                       Parses (Manifest
                         \<lparr>downloaded_releases =
                            (if tag \<in> set (downloaded_releases m) then downloaded_releases m
                             else downloaded_releases m @ [tag]),
                          files = fs\<rparr>)
                   | Not_Written \<Rightarrow> manifest_file w
                   | Truncated \<Rightarrow> Corrupt)
              \<and> list_all
                  (\<lambda>a. \<exists>k. tick w \<le> k \<and> k < tick w + length xs
                         \<and> map_of fs (name a)
                             = Some \<lparr>release = tag, downloaded = now_iso e k\<rparr>) xs
              \<and> (\<forall>n. n \<notin> name ` set xs \<longrightarrow> map_of fs n = map_of (files m) n)"
      by (intro exI [of _ ?fs] conjI)
  qed
  have d: "distinct (downloaded_releases m)
        \<longrightarrow> distinct (if tag \<in> set (downloaded_releases m) then downloaded_releases m
                      else downloaded_releases m @ [tag])"
    by simp
  from a b c d show ?thesis by blast
qed

theorem manifest_update_witness:
  "load_manifest example_world = Manifest empty_manifest
   \<and> fst (update_manifest example_env ''v2.1'' (exe_assets example_release)
            \<lparr>successful = 2, skipped = 0, failed = 0\<rparr> example_world) = Inr ()
   \<and> manifest_entry
       (snd (update_manifest example_env ''v2.1'' (exe_assets example_release)
              \<lparr>successful = 2, skipped = 0, failed = 0\<rparr> example_world))
       ''wifi-driver.exe'' = Some \<lparr>release = ''v2.1'', downloaded = ''''\<rparr>
   \<and> update_manifest example_env ''v2.1'' (exe_assets example_release)
        \<lparr>successful = 0, skipped = 0, failed = 2\<rparr> example_world = (Inr (), example_world)"
proof -
  have a: "load_manifest example_world = Manifest empty_manifest"
    by (simp add: load_manifest_def example_world_def)
  have b: "manifest_entry
       (snd (update_manifest example_env ''v2.1'' (exe_assets example_release)
              \<lparr>successful = 2, skipped = 0, failed = 0\<rparr> example_world))
       ''wifi-driver.exe'' = Some \<lparr>release = ''v2.1'', downloaded = ''''\<rparr>"
    by code_simp
  from manifest_update
         [of "\<lparr>successful = 2, skipped = 0, failed = 0\<rparr>" example_env "''v2.1''"
             "exe_assets example_release" example_world empty_manifest] a
  have c: "fst (update_manifest example_env ''v2.1'' (exe_assets example_release)
            \<lparr>successful = 2, skipped = 0, failed = 0\<rparr> example_world) = Inr ()"
    by auto
  from manifest_update
         [of "\<lparr>successful = 0, skipped = 0, failed = 2\<rparr>" example_env "''v2.1''"
             "exe_assets example_release" example_world empty_manifest]
  have d: "update_manifest example_env ''v2.1'' (exe_assets example_release)
        \<lparr>successful = 0, skipped = 0, failed = 2\<rparr> example_world = (Inr (), example_world)"
    by simp
  from a b c d show ?thesis by blast
qed

text \<open>
  On a host whose manifest cannot be written, a run that downloads both assets
  (\<open>successful = 2\<close>) leaves the persisted manifest as it was.
\<close>

theorem manifest_update_counterexample:
  "fst (main read_only_env example_world)
   \<and> last (log (snd (main read_only_env example_world))) = Log_Complete 2 0 0
   \<and> manifest_file (snd (main read_only_env example_world)) = manifest_file example_world"
  by code_simp

text \<open>
  C6. The run outcome. \<open>main\<close> returns \<open>False\<close> when the metadata fetch fails; \<open>False\<close> when
  \<open>get_storage_folder\<close> raises (the storage folder cannot be created); \<open>False\<close> when an
  object of the asset array has no \<open>name\<close>; \<open>False\<close> when no asset name ends in \<open>.exe\<close>
  (case-insensitively); \<open>False\<close> when an executable asset has no \<open>browser_download_url\<close>
  (the download loop raises when it reaches it); \<open>False\<close> when the manifest file parses to
  a JSON value that is not an object with a \<open>downloaded_releases\<close> key (the manifest update
  raises, or every download failed); and in every other case, that is with none of these
  and a manifest file that is missing, unreadable or of the manifest's shape, the
  download loop ends normally and \<open>main\<close> returns \<open>True\<close> exactly when the \<open>failed\<close> counter
  of the loop is 0, so that a run in which everything is skipped succeeds.
\<close>

theorem run_outcome:
  "(fetched_release e w = None \<longrightarrow> \<not> fst (main e w))
   \<and> (fetched_release e w = Some info \<and> storage_folder_of e w = Inl x \<longrightarrow> \<not> fst (main e w))
   \<and> (fetched_release e w = Some info \<and> Nameless \<in> set (assets info) \<longrightarrow> \<not> fst (main e w))
   \<and> (fetched_release e w = Some info \<and> exe_assets info = [] \<longrightarrow> \<not> fst (main e w))
   \<and> (fetched_release e w = Some info \<and> \<not> list_all has_url (exe_assets info)
        \<longrightarrow> \<not> fst (main e w))
   \<and> (fetched_release e w = Some info \<and> manifest_file w = Parses Other_JSON
        \<longrightarrow> \<not> fst (main e w))
   \<and> (fetched_release e w = Some info \<and> storage_folder_of e w = Inr sf
        \<and> Nameless \<notin> set (assets info) \<and> exe_assets info \<noteq> []
        \<and> list_all has_url (exe_assets info) \<and> manifest_file w \<noteq> Parses Other_JSON
        \<longrightarrow> (\<exists>c. fst (download_loop e w info) = Inr c \<and> fst (main e w) = (failed c = 0)))"
proof -
  let ?w3 = "snd (download_loop e w info)"
  have mf: "manifest_file ?w3 = manifest_file w" by (rule download_loop_keeps)
  have a: "fetched_release e w = None \<longrightarrow> \<not> fst (main e w)"
    by (simp add: main_fetch_failed)
  have b: "fetched_release e w = Some info \<and> storage_folder_of e w = Inl x
        \<longrightarrow> \<not> fst (main e w)"
    by (simp add: main_no_storage)
  have c: "fetched_release e w = Some info \<and> Nameless \<in> set (assets info)
        \<longrightarrow> \<not> fst (main e w)"
    by (simp add: main_nameless)
  have d: "fetched_release e w = Some info \<and> exe_assets info = [] \<longrightarrow> \<not> fst (main e w)"
    by (simp add: main_no_exe)
  have f: "fetched_release e w = Some info \<and> \<not> list_all has_url (exe_assets info)
        \<longrightarrow> \<not> fst (main e w)"
  proof (intro impI notI)
    assume h: "fetched_release e w = Some info \<and> \<not> list_all has_url (exe_assets info)"
      and run: "fst (main e w)"
    from main_success(4) [OF run] h obtain c where "fst (download_loop e w info) = Inr c"
      by blast
    from download_loop_result(1) [OF this] h show False by simp
  qed
  have g: "fetched_release e w = Some info \<and> manifest_file w = Parses Other_JSON
        \<longrightarrow> \<not> fst (main e w)"
  proof (intro impI notI)
    assume h: "fetched_release e w = Some info \<and> manifest_file w = Parses Other_JSON"
      and run: "fst (main e w)"
    from main_success(4) [OF run] h obtain m where "load_manifest ?w3 = Manifest m"
      by blast
    moreover from h have "load_manifest ?w3 = Other_JSON"
      by (simp add: load_manifest_other mf)
    ultimately show False by simp
  qed
  have i: "fetched_release e w = Some info \<and> storage_folder_of e w = Inr sf
        \<and> Nameless \<notin> set (assets info) \<and> exe_assets info \<noteq> []
        \<and> list_all has_url (exe_assets info) \<and> manifest_file w \<noteq> Parses Other_JSON
        \<longrightarrow> (\<exists>c. fst (download_loop e w info) = Inr c \<and> fst (main e w) = (failed c = 0))"
  proof
    assume h: "fetched_release e w = Some info \<and> storage_folder_of e w = Inr sf
        \<and> Nameless \<notin> set (assets info) \<and> exe_assets info \<noteq> []
        \<and> list_all has_url (exe_assets info) \<and> manifest_file w \<noteq> Parses Other_JSON"
    then have info: "fetched_release e w = Some info" and st: "storage_folder_of e w = Inr sf"
      and named: "Nameless \<notin> set (assets info)" and ne: "exe_assets info \<noteq> []"
      and urls: "list_all has_url (exe_assets info)"
      by simp_all
    from process_assets_trace [OF urls, of e "storage_path e"
           "\<lparr>successful = 0, skipped = 0, failed = 0\<rparr>" "world_before_loop e w"]
    obtain c where c: "fst (download_loop e w info) = Inr c"
      unfolding download_loop_def by blast
    let ?u = "update_manifest e (tag_of info) (exe_assets info) c ?w3"
    from h have "load_manifest ?w3 \<noteq> Other_JSON"
      by (simp add: load_manifest_other mf)
    then obtain m where m: "load_manifest ?w3 = Manifest m"
      by (cases "load_manifest ?w3") auto
    have "fst ?u = Inr ()"
    proof (cases "0 < successful c \<or> 0 < skipped c")
      case True
      from update_manifest_saves [OF True m] show ?thesis by simp
    next
      case False
      then show ?thesis by (simp add: update_manifest_nothing)
    qed
    then have "fst (main e w) = (failed c = 0)"
      unfolding main_run [OF info st named ne] c by simp
    with c show "\<exists>c. fst (download_loop e w info) = Inr c \<and> fst (main e w) = (failed c = 0)"
      by (intro exI [of _ c]) simp
  qed
  from a b c d f g i show ?thesis by blast
qed

theorem run_outcome_witness:
  "fetched_release offline_env example_world = None
   \<and> \<not> fst (main offline_env example_world)
   \<and> fetched_release no_storage_env example_world = Some example_release
   \<and> storage_folder_of no_storage_env example_world = Inl OSError
   \<and> \<not> fst (main no_storage_env example_world)
   \<and> fetched_release nameless_env example_world = Some nameless_release
   \<and> Nameless \<in> set (assets nameless_release)
   \<and> \<not> fst (main nameless_env example_world)
   \<and> exe_assets \<lparr>tag_name = Some ''v2.2'',
                  assets = [Named \<lparr>name = ''notes.pdf'',
                                   browser_download_url = Some ''url-2''\<rparr>]\<rparr> = []
   \<and> \<not> fst (main no_exe_env example_world)
   \<and> fetched_release broken_env example_world = Some broken_release
   \<and> \<not> list_all has_url (exe_assets broken_release)
   \<and> \<not> fst (main broken_env example_world)
   \<and> manifest_file odd_manifest_world = Parses Other_JSON
   \<and> \<not> fst (main example_env odd_manifest_world)
   \<and> fetched_release example_env example_world = Some example_release
   \<and> storage_folder_of example_env example_world = Inr ''A/GitHubReleaseDownloader/downloads''
   \<and> Nameless \<notin> set (assets example_release)
   \<and> exe_assets example_release \<noteq> []
   \<and> list_all has_url (exe_assets example_release)
   \<and> manifest_file example_world \<noteq> Parses Other_JSON
   \<and> fst (download_loop example_env example_world example_release)
       = Inr \<lparr>successful = 2, skipped = 0, failed = 0\<rparr>
   \<and> fst (main example_env example_world)
   \<and> fst (download_loop flaky_env example_world example_release)
       = Inr \<lparr>successful = 1, skipped = 0, failed = 1\<rparr>
   \<and> \<not> fst (main flaky_env example_world)"
proof -
  let ?pdf = "\<lparr>tag_name = Some ''v2.2'',
               assets = [Named \<lparr>name = ''notes.pdf'',
                                browser_download_url = Some ''url-2''\<rparr>]\<rparr>"
  let ?sf = "''A/GitHubReleaseDownloader/downloads''"
  have a1: "fetched_release offline_env example_world = None" by code_simp
  have s1: "fetched_release no_storage_env example_world = Some example_release" by code_simp
  have s2: "storage_folder_of no_storage_env example_world = Inl OSError" by code_simp
  have n1: "fetched_release nameless_env example_world = Some nameless_release" by code_simp
  have n2: "Nameless \<in> set (assets nameless_release)" by code_simp
  have b1: "fetched_release no_exe_env example_world = Some ?pdf" by code_simp
  have b2: "exe_assets ?pdf = []" by code_simp
  have k1: "fetched_release broken_env example_world = Some broken_release" by code_simp
  have k2: "\<not> list_all has_url (exe_assets broken_release)" by code_simp
  have c1: "fetched_release example_env odd_manifest_world = Some example_release" by code_simp
  have c3: "manifest_file odd_manifest_world = Parses Other_JSON"
    by (simp add: odd_manifest_world_def)
  have d1: "fetched_release example_env example_world = Some example_release" by code_simp
  have d2: "storage_folder_of example_env example_world = Inr ?sf" by code_simp
  have d3: "Nameless \<notin> set (assets example_release)" by code_simp
  have d4: "exe_assets example_release \<noteq> []" by code_simp
  have d5: "list_all has_url (exe_assets example_release)" by code_simp
  have d6: "manifest_file example_world \<noteq> Parses Other_JSON"
    by (simp add: example_world_def)
  have d7: "fst (download_loop example_env example_world example_release)
       = Inr \<lparr>successful = 2, skipped = 0, failed = 0\<rparr>"
    by code_simp
  have e1: "fetched_release flaky_env example_world = Some example_release" by code_simp
  have e2: "storage_folder_of flaky_env example_world = Inr ?sf" by code_simp
  have e7: "fst (download_loop flaky_env example_world example_release)
       = Inr \<lparr>successful = 1, skipped = 0, failed = 1\<rparr>"
    by code_simp
  from run_outcome [of offline_env example_world] a1
  have a: "\<not> fst (main offline_env example_world)" by blast
  from run_outcome [of no_storage_env example_world example_release OSError] s1 s2
  have s: "\<not> fst (main no_storage_env example_world)" by blast
  from run_outcome [of nameless_env example_world nameless_release] n1 n2
  have n: "\<not> fst (main nameless_env example_world)" by blast
  from run_outcome [of no_exe_env example_world ?pdf] b1 b2
  have b: "\<not> fst (main no_exe_env example_world)" by blast
  from run_outcome [of broken_env example_world broken_release] k1 k2
  have k: "\<not> fst (main broken_env example_world)" by blast
  from run_outcome [of example_env odd_manifest_world example_release] c1 c3
  have c: "\<not> fst (main example_env odd_manifest_world)" by blast
  from run_outcome [of example_env example_world example_release _ ?sf] d1 d2 d3 d4 d5 d6 d7
  have d: "fst (main example_env example_world)" by auto
  from run_outcome [of flaky_env example_world example_release _ ?sf] e1 e2 d3 d4 d5 d6 e7
  have e: "\<not> fst (main flaky_env example_world)" by auto
  from a1 a s1 s2 s n1 n2 n b2 b k1 k2 k c3 c d1 d2 d3 d4 d5 d6 d7 d e7 e
  show ?thesis by blast
qed

text \<open>
  With a manifest file holding some other JSON value, the fetch succeeds, there are
  executable assets and no download fails, and still \<open>main\<close> returns \<open>False\<close>.
\<close>

theorem run_outcome_counterexample:
  "fetched_release example_env odd_manifest_world = Some example_release
   \<and> exe_assets example_release \<noteq> []
   \<and> fst (download_loop example_env odd_manifest_world example_release)
       = Inr \<lparr>successful = 2, skipped = 0, failed = 0\<rparr>
   \<and> \<not> fst (main example_env odd_manifest_world)"
  by code_simp

text \<open>
  C7. The process exit status. The entry point drops the value of \<open>main()\<close>: whenever
  \<open>main\<close> returns, the exit status is 0, on success and on failure alike; only the
  boolean returned by \<open>main\<close> tells them apart. The state the script leaves is that of
  \<open>main\<close>.
\<close>

theorem exit_status_ignores_outcome:
  "fst (script e w) = 0 \<and> snd (script e w) = snd (main e w)"
  by (simp add: script_def split_def)

text \<open>Without network \<open>main\<close> returns \<open>False\<close>, and the exit status is 0.\<close>

theorem exit_status_counterexample:
  "\<not> fst (main offline_env example_world) \<and> fst (script offline_env example_world) = 0"
  by code_simp

text \<open>
  C1. Running twice. If a run succeeds (the release is fetched, it has executable assets,
  no download fails and the manifest update does not raise) and the next run, started
  from the state the first one left, fetches the same release, then the second run
  succeeds and reports \<open>successful = 0\<close>, \<open>skipped =\<close> the number of executable assets and
  \<open>failed = 0\<close>. If moreover the manifest writes succeed, the manifest persisted by the
  second run has the same \<open>downloaded_releases\<close> and the same asset names, in the same
  order and with the same release tags, as the one persisted by the first run; only the
  \<open>downloaded\<close> timestamps are overwritten with the clock readings of the second run.
\<close>

theorem rerun_skips_everything:
  assumes run1: "fst (main e w)"
    and info: "fetched_release e w = Some info"
    and same: "fetched_release e (snd (main e w)) = Some info"
  shows "fst (main e (snd (main e w)))
     \<and> last (log (snd (main e (snd (main e w))))) = Log_Complete 0 (length (exe_assets info)) 0
     \<and> ((\<forall>k. write_result e k = Written) \<longrightarrow>
          (\<exists>m1 m2. manifest_file (snd (main e w)) = Parses (Manifest m1)
             \<and> manifest_file (snd (main e (snd (main e w)))) = Parses (Manifest m2)
             \<and> downloaded_releases m2 = downloaded_releases m1
             \<and> tags_of (files m2) = tags_of (files m1)))"
proof -
  let ?xs = "exe_assets info"
  let ?tag = "tag_of info"
  let ?sf = "storage_path e"
  let ?zero = "\<lparr>successful = 0, skipped = 0, failed = 0\<rparr>"
  let ?w3 = "snd (download_loop e w info)"
  let ?W = "snd (main e w)"
  let ?W3 = "snd (download_loop e ?W info)"
  note s1 = main_success [OF run1 info]
  from s1(4) obtain c m where c: "fst (download_loop e w info) = Inr c"
    and f0: "failed c = 0" and pos: "0 < successful c \<or> 0 < skipped c"
    and m: "load_manifest ?w3 = Manifest m"
    and W: "?W = logging (Log_Complete (successful c) (skipped c) (failed c))
                  (snd (update_manifest e ?tag ?xs c ?w3))"
    by blast
  let ?u = "update_manifest e ?tag ?xs c ?w3"
  define M1 where "M1 =
     \<lparr>downloaded_releases =
        (if ?tag \<in> set (downloaded_releases m) then downloaded_releases m
         else downloaded_releases m @ [?tag]),
      files = fst (record_files e ?tag ?xs (files m) ?w3)\<rparr>"
  have u: "?u = (Inr (), save_manifest e M1 (?w3\<lparr>tick := tick ?w3 + length ?xs\<rparr>))"
    unfolding M1_def by (rule update_manifest_saves [OF pos m])
  have diskW: "disk ?W = disk ?w3"
    unfolding W u by (simp add: logging_keeps save_manifest_keeps)
  have "storage_path e \<in> dirs (world_before_loop e w)"
    using s1(1) get_storage_folder_result(1) [of e "world_after_fetch e w" "storage_path e"]
    by (simp add: storage_folder_of_def world_before_loop_def)
  then have "storage_path e \<in> dirs ?W"
    unfolding W u by (simp add: logging_keeps save_manifest_dirs download_loop_keeps)
  then have "storage_path e \<in> dirs (world_after_fetch e ?W)"
    by (simp add: world_after_fetch_keeps)
  from get_storage_folder_result(2) [OF this]
  have st2: "storage_folder_of e ?W = Inr (storage_path e)"
    and wb2: "world_before_loop e ?W = world_after_fetch e ?W"
    by (simp_all add: storage_folder_of_def world_before_loop_def)
  have mfW: "manifest_file ?W =
     (case write_result e (tick ?w3 + length ?xs) of
        Written \<Rightarrow> Parses (Manifest M1)
      | Not_Written \<Rightarrow> manifest_file ?w3
      | Truncated \<Rightarrow> Corrupt)"
    unfolding W u by (simp add: logging_keeps save_manifest_keeps split: write_outcome.split)
  have urls: "list_all has_url ?xs"
    by (rule download_loop_result(1) [OF c])
  have "list_all (\<lambda>b. path_join e ?sf (name b) \<in> disk ?w3) ?xs"
    by (rule download_loop_result(3) [OF c f0])
  then have "list_all (\<lambda>b. path_join e ?sf (name b) \<in> disk (world_before_loop e ?W)) ?xs"
    by (simp add: world_before_loop_keeps diskW)
  from process_assets_all_present [OF urls this, of ?zero]
  have c2: "fst (download_loop e ?W info)
              = Inr \<lparr>successful = 0, skipped = length ?xs, failed = 0\<rparr>"
    by (simp add: download_loop_def)
  let ?c2 = "\<lparr>successful = 0, skipped = length ?xs, failed = 0\<rparr>"
  let ?u2 = "update_manifest e ?tag ?xs ?c2 ?W3"
  have mfW3: "manifest_file ?W3 = manifest_file ?W"
    by (rule download_loop_keeps)
  have "load_manifest ?W3 \<noteq> Other_JSON"
  proof (cases "write_result e (tick ?w3 + length ?xs)")
    case Written
    then show ?thesis by (simp add: load_manifest_def mfW3 mfW)
  next
    case Not_Written
    then have "manifest_file ?W3 = manifest_file ?w3" by (simp add: mfW3 mfW)
    then have "load_manifest ?W3 = load_manifest ?w3" by (rule load_manifest_cong)
    with m show ?thesis by simp
  next
    case Truncated
    then show ?thesis by (simp add: load_manifest_def mfW3 mfW)
  qed
  then obtain m' where m': "load_manifest ?W3 = Manifest m'"
    by (cases "load_manifest ?W3") auto
  have ne: "?xs \<noteq> []" by (rule s1(3))
  then have pos2: "0 < successful ?c2 \<or> 0 < skipped ?c2"
    by simp
  define M2 where "M2 =
     \<lparr>downloaded_releases =
        (if ?tag \<in> set (downloaded_releases m') then downloaded_releases m'
         else downloaded_releases m' @ [?tag]),
      files = fst (record_files e ?tag ?xs (files m') ?W3)\<rparr>"
  have u2: "?u2 = (Inr (), save_manifest e M2 (?W3\<lparr>tick := tick ?W3 + length ?xs\<rparr>))"
    unfolding M2_def by (rule update_manifest_saves [OF pos2 m'])
  have run2: "main e ?W =
     (True, logging (Log_Complete 0 (length ?xs) 0) (snd ?u2))"
    unfolding main_run [OF same st2 s1(2) ne] c2 by (simp add: u2)
  have ok2: "fst (main e ?W)"
    unfolding run2 by simp
  have log2: "last (log (snd (main e ?W))) = Log_Complete 0 (length ?xs) 0"
    unfolding run2 by (simp add: logging_keeps)
  have manifests: "\<exists>m1 m2. manifest_file ?W = Parses (Manifest m1)
             \<and> manifest_file (snd (main e ?W)) = Parses (Manifest m2)
             \<and> downloaded_releases m2 = downloaded_releases m1
             \<and> tags_of (files m2) = tags_of (files m1)"
    if wr: "\<forall>k. write_result e k = Written"
  proof -
    from wr have mf1: "manifest_file ?W = Parses (Manifest M1)"
      by (simp add: mfW)
    then have "load_manifest ?W3 = Manifest M1"
      by (simp add: load_manifest_def mfW3)
    with m' have mm: "m' = M1" by simp
    have mf2: "manifest_file (snd (main e ?W)) = Parses (Manifest M2)"
      unfolding run2 using wr by (simp add: logging_keeps u2 save_manifest_keeps)
    have tag_in: "?tag \<in> set (downloaded_releases M1)"
      by (simp add: M1_def)
    then have dr: "downloaded_releases M2 = downloaded_releases M1"
      by (simp add: M2_def mm)
    have "list_all (\<lambda>a. \<exists>x. map_of (files M1) (name a) = Some x \<and> release x = ?tag) ?xs"
      unfolding list_all_iff
    proof
      fix a assume "a \<in> set ?xs"
      then have "name a \<in> name ` set ?xs" by simp
      from record_files_entry [OF this, of ?w3 e ?tag "files m"]
      show "\<exists>x. map_of (files M1) (name a) = Some x \<and> release x = ?tag"
        by (auto simp: M1_def)
    qed
    from record_files_tags [OF this, of e ?W3]
    have "tags_of (files M2) = tags_of (files M1)"
      by (simp add: M2_def mm)
    with mf1 mf2 dr show ?thesis by blast
  qed
  from ok2 log2 manifests show ?thesis by blast
qed

theorem rerun_skips_everything_witness:
  "fst (main example_env example_world)
   \<and> fetched_release example_env example_world = Some example_release
   \<and> fetched_release example_env (snd (main example_env example_world)) = Some example_release
   \<and> (\<forall>k. write_result example_env k = Written)
   \<and> fst (main example_env (snd (main example_env example_world)))
   \<and> last (log (snd (main example_env (snd (main example_env example_world)))))
       = Log_Complete 0 2 0
   \<and> manifest_file (snd (main example_env (snd (main example_env example_world))))
       \<noteq> manifest_file (snd (main example_env example_world))"
proof -
  have a: "fst (main example_env example_world)" by code_simp
  have b: "fetched_release example_env example_world = Some example_release" by code_simp
  have c: "fetched_release example_env (snd (main example_env example_world))
             = Some example_release" by code_simp
  have d: "\<forall>k. write_result example_env k = Written"
    by (simp add: example_env_def)
  have n: "length (exe_assets example_release) = 2" by code_simp
  have t: "manifest_file (snd (main example_env (snd (main example_env example_world))))
       \<noteq> manifest_file (snd (main example_env example_world))" by code_simp
  from rerun_skips_everything [OF a b c] n
  have "fst (main example_env (snd (main example_env example_world)))
     \<and> last (log (snd (main example_env (snd (main example_env example_world)))))
         = Log_Complete 0 2 0"
    by simp
  with a b c d t show ?thesis by blast
qed

text \<open>
  With a download that fails in the first run and succeeds in the second, the second run
  reports \<open>successful = 1\<close> and \<open>skipped = 1\<close> for two executable assets, and the manifest
  it persists differs from the one persisted by the first run.
\<close>

theorem rerun_counterexample:
  "length (exe_assets example_release) = 2
   \<and> last (log (snd (main flaky_env (snd (main flaky_env example_world))))) = Log_Complete 1 1 0
   \<and> manifest_file (snd (main flaky_env (snd (main flaky_env example_world))))
       \<noteq> manifest_file (snd (main flaky_env example_world))"
  by code_simp

text \<open>
  C2. Manifest entries and files. The invariant that an asset name in the manifest's
  \<open>files\<close> mapping had its file in the storage when the entry was recorded does not hold of
  \<open>main\<close>. In the run below the first executable is downloaded and both attempts to
  download \<open>security-patch.exe\<close> fail (\<open>successful = 1\<close>, \<open>failed = 1\<close>); the only file in
  the storage is the first one, during the manifest update as at the end of the run; and
  the manifest update records an entry with a \<open>downloaded\<close> timestamp for
  \<open>security-patch.exe\<close> all the same.
\<close>

theorem failed_download_recorded:
  "log (snd (main flaky_env example_world)) =
     [Log_Downloaded ''A/GitHubReleaseDownloader/downloads/wifi-driver.exe'',
      Log_Retry ''url-3'', Log_Download_Failed ''url-3'', Log_Complete 1 0 1]
   \<and> disk (snd (download_loop flaky_env example_world example_release)) =
       {''A/GitHubReleaseDownloader/downloads/wifi-driver.exe''}
   \<and> disk (snd (main flaky_env example_world)) =
       {''A/GitHubReleaseDownloader/downloads/wifi-driver.exe''}
   \<and> manifest_entry (snd (main flaky_env example_world)) ''security-patch.exe''
       = Some \<lparr>release = ''v2.1'', downloaded = ''IIIIIIIII''\<rparr>"
  by code_simp

end
